theory Spec2Isabelle
  imports Main
begin

section \<open>The propagation client of \<open>src/DigNetwork/PropagationServer.ts\<close>\<close>

text \<open>
  The class \<open>PropagationServer\<close> talks to one peer over HTTPS. Its methods are modelled
  as functions that take the program state and return a result together with the new
  state. The state is the object's fields plus a chronological trace of the actions
  the program performs on the outside world (requests, prompts, signatures, file
  writes). A thrown exception or rejected promise is the result \<open>Inl e\<close>.

  Everything the program receives from outside is a field of the environment record
  \<open>env\<close>. The calls into Node and axios may throw and may answer differently each
  time, so they take the trace so far as their first argument. Progress bars,
  spinners and console output do not influence control flow and are left out.
\<close>

subsection \<open>JavaScript values\<close>

datatype error =
    Error string     \<comment> \<open>\<open>new Error(message)\<close> thrown by the class itself\<close>
  | Thrown string    \<comment> \<open>an exception raised by axios or by Node's \<open>fs\<close>\<close>

type_synonym headers = "string \<rightharpoonup> string"

text \<open>Truthiness of a value of type \<open>string | undefined\<close>.\<close>

definition truthy :: "string option \<Rightarrow> bool" where
  "truthy v = (case v of None \<Rightarrow> False | Some s \<Rightarrow> s \<noteq> [])"

text \<open>A JavaScript number as far as \<open>parseInt\<close> can return one.\<close>

datatype number = NaN | Num int

text \<open>Truthiness of a value of type \<open>number | null\<close>: \<open>null\<close>, \<open>NaN\<close> and zero are falsy.\<close>

definition truthy_number :: "number option \<Rightarrow> bool" where
  "truthy_number v = (case v of None \<Rightarrow> False | Some NaN \<Rightarrow> False | Some (Num n) \<Rightarrow> n \<noteq> 0)"

text \<open>
  \<open>parseInt(s, 10)\<close>: leading white space is skipped, an optional sign is read, then
  the longest prefix of decimal digits; no digit gives \<open>NaN\<close>. The rounding of very
  long digit strings to a double is not modelled (it never turns a non-zero value
  into zero).
\<close>

definition isWhiteSpace :: "char \<Rightarrow> bool" where
  "isWhiteSpace c = (c \<in> set [CHR 0x09, CHR 0x0A, CHR 0x0B, CHR 0x0C, CHR 0x0D, CHR 0x20, CHR 0xA0])"

definition isDigit :: "char \<Rightarrow> bool" where
  "isDigit c = (c \<in> set ''0123456789'')"

definition digitValue :: "char \<Rightarrow> nat" where
  "digitValue c = of_char c - of_char CHR ''0''"

definition digitsValue :: "string \<Rightarrow> nat" where
  "digitsValue ds = foldl (\<lambda>acc c. 10 * acc + digitValue c) 0 ds"

definition parseInt :: "string \<Rightarrow> number" where
  "parseInt s =
     (let t = dropWhile isWhiteSpace s;
          neg = (t \<noteq> [] \<and> hd t = CHR ''-'');
          u = (if t \<noteq> [] \<and> (hd t = CHR ''-'' \<or> hd t = CHR ''+'') then tl t else t);
          ds = takeWhile isDigit u
      in if ds = [] then NaN
         else Num (if neg then - int (digitsValue ds) else int (digitsValue ds)))"

subsection \<open>Object state, observable actions and the environment\<close>

record PropagationServer =
  storeId :: string
  sessionId :: string
  publicKey :: string
  ipAddress :: string
  certPath :: string
  keyPath :: string
  username :: "string option"
  password :: "string option"

type_synonym auth = "string \<times> string"

datatype event =
    StoreProbe string                  \<comment> \<open>\<open>axios.head\<close> in \<open>checkStoreExists\<close>: url\<close>
  | CredentialPrompt string            \<comment> \<open>\<open>promptCredentials(ipAddress)\<close>\<close>
  | SessionStart string "auth option"  \<comment> \<open>\<open>axios.post\<close> in \<open>startUploadSession\<close>: url, Basic auth\<close>
  | NonceRequest string                \<comment> \<open>\<open>axios.head\<close> in \<open>getFileNonce\<close>: url\<close>
  | Signature "string option"          \<comment> \<open>\<open>createKeyOwnershipSignature(nonce)\<close>\<close>
  | FilePut string "string option" string string
      \<comment> \<open>\<open>axios.put\<close> in \<open>uploadFile\<close>: url, x-nonce, x-public-key, x-key-ownership-sig\<close>
  | Commit string "auth option"        \<comment> \<open>\<open>axios.post\<close> in \<open>commitUploadSession\<close>: url, Basic auth\<close>
  | Fetch string                       \<comment> \<open>\<open>axios.get\<close> in \<open>fetchFile\<close> and \<open>downloadFile\<close>: url\<close>
  | BodyStream string                  \<comment> \<open>the response body of that url is piped onwards\<close>
  | MakeDir string                     \<comment> \<open>\<open>fs.mkdirSync(dir, {recursive: true})\<close>\<close>
  | WriteFile string string            \<comment> \<open>\<open>fs.writeFileSync(path, content)\<close>\<close>
  | GenerateManifest string            \<comment> \<open>\<open>dataStore.generateManifestFile()\<close> of a store\<close>
  | TaskStart nat                      \<comment> \<open>the scheduler starts the task with this index\<close>
  | TaskEnd nat bool                   \<comment> \<open>that task's promise settles; \<open>True\<close> when fulfilled\<close>

record state =
  self :: PropagationServer
  trace :: "event list"

definition emit :: "event \<Rightarrow> state \<Rightarrow> state" where
  "emit e s = s\<lparr>trace := trace s @ [e]\<rparr>"

text \<open>The response of \<open>axios.get\<close> with \<open>responseType: "stream"\<close>: the headers, and
  what reading the body stream to its end yields.\<close>

record get_response =
  resp_headers :: headers
  resp_body :: "error + string"

record file_entry =
  name :: string
  path :: string

text \<open>
  Modelled from the spec: the wallet (\<open>AuthSigner: publicKey() -> bytes, sign(nonce) ->
  signature\<close>), the credential prompt (\<open>CredentialPrompt: ask(peerAddress) -> (username,
  password)\<close>), the content store (\<open>ContentStore\<close>: resolves a digest to a local path,
  yields the file set of a root hash, regenerates the manifest index) and the
  certificate provisioning are modules of the repository that are not part of the
  class. The spec gives them as plain functions without a failure outcome, and so
  they are fields of \<open>env\<close> that always return. \<open>json_files\<close> stands for
  \<open>JSON.parse\<close> followed by \<open>Object.entries(root.files)\<close>, yielding each file key with
  its \<open>sha256\<close>; \<open>schedule\<close> is the order in which the runtime settles promises.
\<close>

record env =
  \<comment> \<open>Node and axios\<close>
  readFileSync :: "event list \<Rightarrow> string \<Rightarrow> error + string"
  existsSync :: "event list \<Rightarrow> string \<Rightarrow> bool"
  statSync_size :: "event list \<Rightarrow> string \<Rightarrow> error + nat"
  mkdirSync :: "event list \<Rightarrow> string \<Rightarrow> error + unit"
  writeFileSync :: "event list \<Rightarrow> string \<Rightarrow> string \<Rightarrow> error + unit"
  writeStream :: "event list \<Rightarrow> string \<Rightarrow> string \<Rightarrow> error + unit"
  path_join :: "string list \<Rightarrow> string"
  path_dirname :: "string \<Rightarrow> string"
  axios_head :: "event list \<Rightarrow> string \<Rightarrow> error + headers"
  axios_post :: "event list \<Rightarrow> string \<Rightarrow> auth option \<Rightarrow> error + string"
  axios_put :: "event list \<Rightarrow> string \<Rightarrow> error + unit"
  readStream_end :: "event list \<Rightarrow> string \<Rightarrow> error + unit"
  axios_get :: "event list \<Rightarrow> string \<Rightarrow> error + get_response"
  json_files :: "string \<Rightarrow> error + (string \<times> string) list"
  hex_to_utf8 :: "string \<Rightarrow> string"
  \<comment> \<open>modules of the repository that the class imports\<close>
  STORE_PATH :: string
  getOrCreateSSLCerts :: "string \<times> string"
  wallet_publicKey :: string
  wallet_sign :: "string option \<Rightarrow> string"
  promptCredentials :: "string \<Rightarrow> auth"
  getFileSetForRootHash :: "string \<Rightarrow> string \<Rightarrow> file_entry list"
  getFilePathFromSha256 :: "string \<Rightarrow> string \<Rightarrow> string"
  schedule :: "event list \<Rightarrow> nat"

text \<open>The static port 4159, as the url templates render it.\<close>

definition port :: string where
  "port = ''4159''"

definition base_url :: "state \<Rightarrow> string" where
  "base_url s = ''https://'' @ ipAddress (self s) @ '':'' @ port"

subsection \<open>Construction and the TLS agent\<close>

definition new_PropagationServer :: "env \<Rightarrow> string \<Rightarrow> string \<Rightarrow> state" where
  "new_PropagationServer env ip sid =
     \<lparr>self = \<lparr>storeId = sid, sessionId = '''', publicKey = '''', ipAddress = ip,
              certPath = fst (getOrCreateSSLCerts env), keyPath = snd (getOrCreateSSLCerts env),
              username = None, password = None\<rparr>,
      trace = []\<rparr>"

definition initializeWallet :: "env \<Rightarrow> state \<Rightarrow> state" where
  "initializeWallet env s = s\<lparr>self := (self s)\<lparr>publicKey := wallet_publicKey env\<rparr>\<rparr>"

text \<open>\<open>createHttpsAgent\<close> reads the certificate and the key from disk; either read may throw.\<close>

definition createHttpsAgent :: "env \<Rightarrow> state \<Rightarrow> error + unit" where
  "createHttpsAgent env s =
     (case readFileSync env (trace s) (certPath (self s)) of
        Inl e \<Rightarrow> Inl e
      | Inr _ \<Rightarrow>
          (case readFileSync env (trace s) (keyPath (self s)) of
             Inl e \<Rightarrow> Inl e
           | Inr _ \<Rightarrow> Inr ()))"

subsection \<open>Fetching\<close>

definition fetch_url :: "state \<Rightarrow> string \<Rightarrow> string" where
  "fetch_url s dataPath = base_url s @ ''/fetch/'' @ storeId (self s) @ ''/'' @ dataPath"

text \<open>Lines 411 to 418 and 524 to 531: the declared length, or the error.\<close>

definition totalLength :: "get_response \<Rightarrow> number option" where
  "totalLength response =
     (let totalLengthHeader = resp_headers response ''content-length''
      in if truthy totalLengthHeader then Some (parseInt (the totalLengthHeader)) else None)"

definition fetchFile :: "env \<Rightarrow> string \<Rightarrow> state \<Rightarrow> (error + string) \<times> state" where
  "fetchFile env dataPath s =
     (let url = fetch_url s dataPath in
      case createHttpsAgent env s of
        Inl e \<Rightarrow> (Inl e, s)
      | Inr _ \<Rightarrow>
          (let s1 = emit (Fetch url) s in
           case axios_get env (trace s1) url of
             Inl e \<Rightarrow> (Inl e, s1)
           | Inr response \<Rightarrow>
               if \<not> truthy_number (totalLength response)
               then (Inl (Error ''Content-Length header is missing''), s1)
               else (resp_body response, emit (BodyStream url) s1)))"

definition downloadFile :: "env \<Rightarrow> string \<Rightarrow> string \<Rightarrow> state \<Rightarrow> (error + unit) \<times> state" where
  "downloadFile env label dataPath s =
     (let url = fetch_url s dataPath;
          downloadPath = path_join env [STORE_PATH env, storeId (self s), dataPath];
          s1 = emit (MakeDir (path_dirname env downloadPath)) s in
      case mkdirSync env (trace s1) (path_dirname env downloadPath) of
        Inl e \<Rightarrow> (Inl e, s1)
      | Inr _ \<Rightarrow>
          (case createHttpsAgent env s1 of
             Inl e \<Rightarrow> (Inl e, s1)
           | Inr _ \<Rightarrow>
               (let s2 = emit (Fetch url) s1 in
                case axios_get env (trace s2) url of
                  Inl e \<Rightarrow> (Inl e, s2)
                | Inr response \<Rightarrow>
                    if \<not> truthy_number (totalLength response)
                    then (Inl (Error ''Content-Length header is missing''), s2)
                    else
                      (let s3 = emit (BodyStream url) s2 in
                       case resp_body response of
                         Inl e \<Rightarrow> (Inl e, s3)
                       | Inr bytes \<Rightarrow>
                           (case writeStream env (trace s3) downloadPath bytes of
                              Inl e \<Rightarrow> (Inl e, s3)
                            | Inr _ \<Rightarrow> (Inr (), s3))))))"

subsection \<open>Probing the store\<close>

definition store_url :: "state \<Rightarrow> string option \<Rightarrow> string" where
  "store_url s rootHash =
     (let url = base_url s @ ''/'' @ storeId (self s)
      in if truthy rootHash then url @ ''?hasRootHash='' @ the rootHash else url)"

definition checkStoreExists :: "env \<Rightarrow> string option \<Rightarrow> state \<Rightarrow> (error + bool \<times> bool) \<times> state" where
  "checkStoreExists env rootHash s =
     (case createHttpsAgent env s of
        Inl e \<Rightarrow> (Inl e, s)
      | Inr _ \<Rightarrow>
          (let url = store_url s rootHash;
               s1 = emit (StoreProbe url) s in
           case axios_head env (trace s1) url of
             Inl e \<Rightarrow> (Inl e, s1)
           | Inr response_headers \<Rightarrow>
               (let storeExists = (response_headers ''x-store-exists'' = Some ''true'');
                    rootHashExists = (response_headers ''x-has-root-hash'' = Some ''true'')
                in (Inr (storeExists, rootHashExists), s1))))"

subsection \<open>The upload session\<close>

text \<open>Lines 148 to 154 and 306 to 312: Basic auth only when both fields are truthy.\<close>

definition basic_auth :: "state \<Rightarrow> auth option" where
  "basic_auth s =
     (if truthy (username (self s)) \<and> truthy (password (self s))
      then Some (the (username (self s)), the (password (self s)))
      else None)"

definition session_url :: "state \<Rightarrow> string \<Rightarrow> string" where
  "session_url s rootHash =
     base_url s @ ''/upload/'' @ storeId (self s) @ ''?roothash='' @ rootHash"

definition startUploadSession :: "env \<Rightarrow> string \<Rightarrow> state \<Rightarrow> (error + unit) \<times> state" where
  "startUploadSession env rootHash s =
     (let datFilePath = path_join env [STORE_PATH env, storeId (self s), rootHash @ ''.dat''] in
      if \<not> existsSync env (trace s) datFilePath
      then (Inl (Error (''File not found: '' @ datFilePath)), s)
      else
        (case createHttpsAgent env s of
           Inl e \<Rightarrow> (Inl e, s)
         | Inr _ \<Rightarrow>
             (let url = session_url s rootHash;
                  s1 = emit (SessionStart url (basic_auth s)) s in
              case axios_post env (trace s1) url (basic_auth s) of
                Inl e \<Rightarrow> (Inl e, s1)
              | Inr response_sessionId \<Rightarrow>
                  (Inr (), s1\<lparr>self := (self s1)\<lparr>sessionId := response_sessionId\<rparr>\<rparr>))))"

definition upload_url :: "state \<Rightarrow> string \<Rightarrow> string" where
  "upload_url s filename =
     base_url s @ ''/upload/'' @ storeId (self s) @ ''/'' @ sessionId (self s) @ ''/'' @ filename"

definition getFileNonce :: "env \<Rightarrow> string \<Rightarrow> state \<Rightarrow> (error + string option \<times> bool) \<times> state" where
  "getFileNonce env filename s =
     (case createHttpsAgent env s of
        Inl e \<Rightarrow> (Inl e, s)
      | Inr _ \<Rightarrow>
          (let url = upload_url s filename;
               s1 = emit (NonceRequest url) s in
           case axios_head env (trace s1) url of
             Inl e \<Rightarrow> (Inl e, s1)
           | Inr response_headers \<Rightarrow>
               (let fileExists = (response_headers ''x-file-exists'' = Some ''true'');
                    nonce = response_headers ''x-nonce''
                in (Inr (nonce, fileExists), s1))))"

text \<open>
  \<open>uploadFile\<close>. After the signature the file size is read, the agent is built, the
  body is sent and the end of the progress stream is awaited; each step may throw.
  A request that never settles is outside this model.
\<close>

definition uploadFile :: "env \<Rightarrow> string \<Rightarrow> string \<Rightarrow> state \<Rightarrow> (error + unit) \<times> state" where
  "uploadFile env label dataPath s =
     (let filePath = path_join env [STORE_PATH env, storeId (self s), dataPath] in
      case getFileNonce env dataPath s of
        (Inl e, s1) \<Rightarrow> (Inl e, s1)
      | (Inr (nonce, fileExists), s1) \<Rightarrow>
          if fileExists then (Inr (), s1)
          else
            (let s2 = emit (Signature nonce) s1;
                 keyOwnershipSig = wallet_sign env nonce;
                 publicKey = wallet_publicKey env in
             case statSync_size env (trace s2) filePath of
               Inl e \<Rightarrow> (Inl e, s2)
             | Inr fileSize \<Rightarrow>
                 (case createHttpsAgent env s2 of
                    Inl e \<Rightarrow> (Inl e, s2)
                  | Inr _ \<Rightarrow>
                      (let url = upload_url s2 dataPath;
                           s3 = emit (FilePut url nonce publicKey keyOwnershipSig) s2 in
                       case axios_put env (trace s3) url of
                         Inl e \<Rightarrow> (Inl e, s3)
                       | Inr _ \<Rightarrow>
                           (case readStream_end env (trace s3) filePath of
                              Inl e \<Rightarrow> (Inl e, s3)
                            | Inr _ \<Rightarrow> (Inr (), s3))))))"

definition commit_url :: "state \<Rightarrow> string" where
  "commit_url s = base_url s @ ''/commit/'' @ storeId (self s) @ ''/'' @ sessionId (self s)"

definition commitUploadSession :: "env \<Rightarrow> state \<Rightarrow> (error + string) \<times> state" where
  "commitUploadSession env s =
     (case createHttpsAgent env s of
        Inl e \<Rightarrow> (Inl e, s)
      | Inr _ \<Rightarrow>
          (let url = commit_url s;
               s1 = emit (Commit url (basic_auth s)) s in
           case axios_post env (trace s1) url (basic_auth s) of
             Inl e \<Rightarrow> (Inl e, s1)
           | Inr response_data \<Rightarrow> (Inr response_data, s1)))"

subsection \<open>The transfer scheduler\<close>

text \<open>The running tasks without the one that settles, and the first error met.\<close>

definition remove_nth :: "nat \<Rightarrow> 'a list \<Rightarrow> 'a list" where
  "remove_nth k xs = take k xs @ drop (Suc k) xs"

definition first_error :: "error option \<Rightarrow> error + unit \<Rightarrow> error option" where
  "first_error failed r =
     (case failed of
        Some e \<Rightarrow> Some e
      | None \<Rightarrow> (case r of Inl e \<Rightarrow> Some e | Inr _ \<Rightarrow> None))"

text \<open>
  Modelled from the spec: \<open>asyncPool\<close> of \<open>utils/asyncPool\<close> is not part of the class.
  The spec's \<open>TransferScheduler\<close> has the contract \<open>run(concurrencyLimit, tasks,
  worker)\<close>: it executes at most \<open>concurrencyLimit\<close> tasks concurrently, the remaining
  tasks queue in input order, completion order is unspecified, it returns only after
  every task has reached a terminal outcome, a failure does not cancel the siblings,
  and no layer swallows an error. So the loop below starts the head of the queue while
  fewer than \<open>limit\<close> tasks are running; otherwise it settles the running task that
  \<open>schedule\<close> picks, recording the worker's actions at that moment; and it ends when
  nothing is queued or running, failing with the first error met.
\<close>

function pool_loop ::
  "env \<Rightarrow> nat \<Rightarrow> ('t \<Rightarrow> state \<Rightarrow> (error + unit) \<times> state) \<Rightarrow>
   (nat \<times> 't) list \<Rightarrow> (nat \<times> 't) list \<Rightarrow> error option \<Rightarrow> state \<Rightarrow> error option \<times> state"
where
  "pool_loop env limit worker queue running failed s =
     (if queue \<noteq> [] \<and> length running < limit then
        pool_loop env limit worker (tl queue) (running @ [hd queue]) failed
          (emit (TaskStart (fst (hd queue))) s)
      else if running \<noteq> [] then
        (let k = schedule env (trace s) mod length running;
             r = worker (snd (running ! k)) s
         in pool_loop env limit worker queue (remove_nth k running)
              (first_error failed (fst r))
              (emit (TaskEnd (fst (running ! k)) (\<not> isl (fst r))) (snd r)))
      else (failed, s))"
  by pat_completeness auto
termination
proof (relation "measure (\<lambda>(env, limit, worker, queue, running, failed, s).
        2 * length queue + length running)", goal_cases)
  case 1
  show ?case by simp
next
  case (2 env limit worker queue running failed s)
  then show ?case by (cases queue) auto
next
  case (3 env limit worker queue running failed s k r)
  then have "k < length running" by simp
  then show ?case by (simp add: remove_nth_def)
qed

declare pool_loop.simps [simp del]

text \<open>
  Modelled from the spec: \<open>asyncPool(limit, tasks, worker)\<close> numbers the tasks in input
  order, runs the loop, and rejects with the first error when a task has failed.
\<close>

definition asyncPool ::
  "env \<Rightarrow> nat \<Rightarrow> 't list \<Rightarrow> ('t \<Rightarrow> state \<Rightarrow> (error + unit) \<times> state) \<Rightarrow> state \<Rightarrow>
   (error + unit) \<times> state"
where
  "asyncPool env limit tasks worker s =
     (case pool_loop env limit worker (zip [0..<length tasks] tasks) [] None s of
        (Some e, s') \<Rightarrow> (Inl e, s')
      | (None, s') \<Rightarrow> (Inr (), s'))"

subsection \<open>Uploading and downloading a store\<close>

definition upload_concurrencyLimit :: nat where
  "upload_concurrencyLimit = 3"

definition download_concurrencyLimit :: nat where
  "download_concurrencyLimit = 5"

text \<open>Lines 347 to 355: the prompt and the two assignments.\<close>

definition acquireCredentials :: "env \<Rightarrow> state \<Rightarrow> state" where
  "acquireCredentials env s =
     (let credentials = promptCredentials env (ipAddress (self s));
          s1 = emit (CredentialPrompt (ipAddress (self s))) s
      in s1\<lparr>self := (self s1)\<lparr>username := Some (fst credentials),
                               password := Some (snd credentials)\<rparr>\<rparr>)"

definition uploadStore :: "env \<Rightarrow> string \<Rightarrow> string \<Rightarrow> string \<Rightarrow> (error + unit) \<times> state" where
  "uploadStore env store_id rootHash ip =
     (let s0 = initializeWallet env (new_PropagationServer env ip store_id) in
      case checkStoreExists env (Some rootHash) s0 of
        (Inl e, s1) \<Rightarrow> (Inl e, s1)
      | (Inr (storeExists, rootHashExists), s1) \<Rightarrow>
          (let s2 = (if \<not> storeExists then acquireCredentials env s1 else s1) in
           if rootHashExists then (Inr (), s2)
           else
             (case startUploadSession env rootHash s2 of
                (Inl e, s3) \<Rightarrow> (Inl e, s3)
              | (Inr _, s3) \<Rightarrow>
                  (let files = getFileSetForRootHash env store_id rootHash;
                       uploadTasks = map (\<lambda>file. (name file, path file)) files in
                   case asyncPool env upload_concurrencyLimit uploadTasks
                          (\<lambda>task. uploadFile env (fst task) (snd task)) s3 of
                     (Inl e, s4) \<Rightarrow> (Inl e, s4)
                   | (Inr _, s4) \<Rightarrow>
                       (case commitUploadSession env s4 of
                          (Inl e, s5) \<Rightarrow> (Inl e, s5)
                        | (Inr _, s5) \<Rightarrow> (Inr (), s5))))))"

definition downloadStore :: "env \<Rightarrow> string \<Rightarrow> string \<Rightarrow> string \<Rightarrow> (error + unit) \<times> state" where
  "downloadStore env store_id rootHash ip =
     (let s0 = initializeWallet env (new_PropagationServer env ip store_id) in
      case checkStoreExists env (Some rootHash) s0 of
        (Inl e, s1) \<Rightarrow> (Inl e, s1)
      | (Inr (storeExists, rootHashExists), s1) \<Rightarrow>
          if \<not> storeExists \<or> \<not> rootHashExists
          then (Inl (Error (''Store '' @ store_id @ '' does not exist.'')), s1)
          else
            (case fetchFile env (rootHash @ ''.dat'') s1 of
               (Inl e, s2) \<Rightarrow> (Inl e, s2)
             | (Inr datFileContent, s2) \<Rightarrow>
                 (case json_files env datFileContent of
                    Inl e \<Rightarrow> (Inl e, s2)
                  | Inr entries \<Rightarrow>
                      (let downloadTasks =
                             map (\<lambda>(fileKey, sha256).
                                    (hex_to_utf8 env fileKey,
                                     getFilePathFromSha256 env sha256 ''data'')) entries in
                       case asyncPool env download_concurrencyLimit downloadTasks
                              (\<lambda>task. downloadFile env (fst task) (snd task)) s2 of
                         (Inl e, s3) \<Rightarrow> (Inl e, s3)
                       | (Inr _, s3) \<Rightarrow>
                           (let datPath = path_join env [STORE_PATH env, store_id, rootHash @ ''.dat''];
                                s4 = emit (WriteFile datPath datFileContent) s3 in
                            case writeFileSync env (trace s4) datPath datFileContent of
                              Inl e \<Rightarrow> (Inl e, s4)
                            | Inr _ \<Rightarrow> (Inr (), emit (GenerateManifest store_id) s4))))))"

text \<open>Lines 372 to 376: the upload tasks of a root hash, one per file of the file set.\<close>

definition upload_tasks :: "env \<Rightarrow> string \<Rightarrow> string \<Rightarrow> (string \<times> string) list" where
  "upload_tasks env store_id rootHash =
     map (\<lambda>file. (name file, path file)) (getFileSetForRootHash env store_id rootHash)"

section \<open>Reading traces\<close>

definition is_task_event :: "event \<Rightarrow> bool" where
  "is_task_event e = (case e of TaskStart _ \<Rightarrow> True | TaskEnd _ _ \<Rightarrow> True | _ \<Rightarrow> False)"

definition is_commit :: "event \<Rightarrow> bool" where
  "is_commit e = (case e of Commit _ _ \<Rightarrow> True | _ \<Rightarrow> False)"

definition is_session_start :: "event \<Rightarrow> bool" where
  "is_session_start e = (case e of SessionStart _ _ \<Rightarrow> True | _ \<Rightarrow> False)"

definition is_prompt :: "event \<Rightarrow> bool" where
  "is_prompt e = (case e of CredentialPrompt _ \<Rightarrow> True | _ \<Rightarrow> False)"

definition is_fetch :: "event \<Rightarrow> bool" where
  "is_fetch e = (case e of Fetch _ \<Rightarrow> True | _ \<Rightarrow> False)"

text \<open>The actions of one \<open>uploadFile\<close> call, and of one \<open>downloadFile\<close> call.\<close>

definition is_upload_event :: "event \<Rightarrow> bool" where
  "is_upload_event e =
     (case e of NonceRequest _ \<Rightarrow> True | Signature _ \<Rightarrow> True | FilePut _ _ _ _ \<Rightarrow> True
      | _ \<Rightarrow> False)"

definition is_download_event :: "event \<Rightarrow> bool" where
  "is_download_event e =
     (case e of MakeDir _ \<Rightarrow> True | Fetch _ \<Rightarrow> True | BodyStream _ \<Rightarrow> True | _ \<Rightarrow> False)"

text \<open>The actions that belong to an upload session.\<close>

definition is_session_event :: "event \<Rightarrow> bool" where
  "is_session_event e =
     (case e of SessionStart _ _ \<Rightarrow> True | NonceRequest _ \<Rightarrow> True | Signature _ \<Rightarrow> True
      | FilePut _ _ _ _ \<Rightarrow> True | Commit _ _ \<Rightarrow> True | _ \<Rightarrow> False)"

text \<open>The actions of \<open>uploadStore\<close> before the files are uploaded.\<close>

definition is_setup_event :: "event \<Rightarrow> bool" where
  "is_setup_event e =
     (case e of StoreProbe _ \<Rightarrow> True | CredentialPrompt _ \<Rightarrow> True | SessionStart _ _ \<Rightarrow> True
      | _ \<Rightarrow> False)"


text \<open>\<open>uses_session s e\<close>: if \<open>e\<close> is a nonce request, a file PUT or the commit POST, its
  url is the one built from the session id that \<open>s\<close> holds.\<close>

definition upload_prefix :: "state \<Rightarrow> string" where
  "upload_prefix s =
     base_url s @ ''/upload/'' @ storeId (self s) @ ''/'' @ sessionId (self s) @ ''/''"

definition uses_session :: "state \<Rightarrow> event \<Rightarrow> bool" where
  "uses_session s e =
     (case e of
        NonceRequest url \<Rightarrow> take (length (upload_prefix s)) url = upload_prefix s
      | FilePut url _ _ _ \<Rightarrow> take (length (upload_prefix s)) url = upload_prefix s
      | Commit url _ \<Rightarrow> url = commit_url s
      | _ \<Rightarrow> True)"

text \<open>\<open>adds P s s'\<close>: the state \<open>s'\<close> has the fields of \<open>s\<close>, and its trace is the trace
  of \<open>s\<close> followed by actions that all satisfy \<open>P\<close>.\<close>

definition new_events :: "state \<Rightarrow> state \<Rightarrow> event list" where
  "new_events s s' = drop (length (trace s)) (trace s')"

definition adds :: "(event \<Rightarrow> bool) \<Rightarrow> state \<Rightarrow> state \<Rightarrow> bool" where
  "adds P s s' =
     (self s' = self s \<and> take (length (trace s)) (trace s') = trace s \<and>
      list_all P (new_events s s'))"

text \<open>The number of tasks in flight after a trace: started and not yet settled.\<close>

definition in_flight :: "event list \<Rightarrow> int" where
  "in_flight tr =
     int (length (filter (\<lambda>e. case e of TaskStart _ \<Rightarrow> True | _ \<Rightarrow> False) tr)) -
     int (length (filter (\<lambda>e. case e of TaskEnd _ _ \<Rightarrow> True | _ \<Rightarrow> False) tr))"

text \<open>At no point of the trace are more than \<open>limit\<close> tasks in flight.\<close>

definition bounded_in_flight :: "nat \<Rightarrow> event list \<Rightarrow> bool" where
  "bounded_in_flight limit tr = (\<forall>k. in_flight (take k tr) \<le> int limit)"

section \<open>Example environments\<close>

text \<open>
  A peer and a local machine on which every call succeeds: \<open>head\<close>, \<open>put\<close> and \<open>get\<close>
  answer the requests by url, the prompt returns \<open>creds\<close> and the store holds \<open>files\<close>.
  The schedule always settles the oldest running task.
\<close>

definition example_env ::
  "(string \<Rightarrow> error + headers) \<Rightarrow> (string \<Rightarrow> error + unit) \<Rightarrow> (string \<Rightarrow> error + get_response) \<Rightarrow>
   auth \<Rightarrow> file_entry list \<Rightarrow> env"
where
  "example_env head put get creds files =
     \<lparr>readFileSync = (\<lambda>tr p. Inr ''pem''),
      existsSync = (\<lambda>tr p. True),
      statSync_size = (\<lambda>tr p. Inr 10),
      mkdirSync = (\<lambda>tr p. Inr ()),
      writeFileSync = (\<lambda>tr p c. Inr ()),
      writeStream = (\<lambda>tr p c. Inr ()),
      path_join = (\<lambda>ps. concat (map (\<lambda>p. ''/'' @ p) ps)),
      path_dirname = (\<lambda>p. p),
      axios_head = (\<lambda>tr url. head url),
      axios_post = (\<lambda>tr url a. Inr ''session-1''),
      axios_put = (\<lambda>tr url. put url),
      readStream_end = (\<lambda>tr p. Inr ()),
      axios_get = (\<lambda>tr url. get url),
      json_files = (\<lambda>content. Inr [(''6162'', ''aa''), (''6364'', ''bb'')]),
      hex_to_utf8 = (\<lambda>k. k),
      STORE_PATH = ''store'',
      getOrCreateSSLCerts = (''client.crt'', ''client.key''),
      wallet_publicKey = ''a1b2'',
      wallet_sign = (\<lambda>nonce. ''sig''),
      promptCredentials = (\<lambda>ip. creds),
      getFileSetForRootHash = (\<lambda>sid rh. files),
      getFilePathFromSha256 = (\<lambda>sha dir. dir @ ''/'' @ sha),
      schedule = (\<lambda>tr. 0)\<rparr>"

definition example_state :: "env \<Rightarrow> state" where
  "example_state env = initializeWallet env (new_PropagationServer env ''10.0.0.1'' ''store1'')"

definition no_length_env :: env where
  "no_length_env =
     example_env (\<lambda>url. Inr Map.empty) (\<lambda>url. Inr ())
       (\<lambda>url. Inr \<lparr>resp_headers = Map.empty, resp_body = Inr ''bytes''\<rparr>) ('''', '''') []"

definition zero_length_env :: env where
  "zero_length_env =
     example_env (\<lambda>url. Inr Map.empty) (\<lambda>url. Inr ())
       (\<lambda>url. Inr \<lparr>resp_headers = [''content-length'' \<mapsto> ''0''], resp_body = Inr ''''\<rparr>)
       ('''', '''') []"

text \<open>Peers for the probe: the store is unknown but the root hash is reported present;
  and the store is known with the root hash present.\<close>

definition probe_headers :: "string \<Rightarrow> string \<Rightarrow> headers" where
  "probe_headers storeExists rootHashExists =
     [''x-store-exists'' \<mapsto> storeExists, ''x-has-root-hash'' \<mapsto> rootHashExists]"

definition replicated_env :: env where
  "replicated_env =
     example_env (\<lambda>url. Inr (probe_headers ''true'' ''true'')) (\<lambda>url. Inr ())
       (\<lambda>url. Inl (Thrown ''unused'')) (''alice'', ''secret'') []"

definition unknown_store_env :: env where
  "unknown_store_env =
     example_env (\<lambda>url. Inr (probe_headers ''false'' ''true'')) (\<lambda>url. Inr ())
       (\<lambda>url. Inl (Thrown ''unused'')) (''alice'', ''secret'') []"

definition unknown_store_env2 :: env where
  "unknown_store_env2 =
     example_env (\<lambda>url. Inr (probe_headers ''false'' ''true'')) (\<lambda>url. Inr ())
       (\<lambda>url. Inl (Thrown ''unused'')) (''bob'', ''hunter2'') []"

definition existing_file_env :: env where
  "existing_file_env =
     example_env (\<lambda>url. Inr [''x-file-exists'' \<mapsto> ''true'']) (\<lambda>url. Inr ())
       (\<lambda>url. Inl (Thrown ''unused'')) ('''', '''') []"

definition absent_root_env :: env where
  "absent_root_env =
     example_env (\<lambda>url. Inr (probe_headers ''true'' ''false'')) (\<lambda>url. Inr ())
       (\<lambda>url. Inl (Thrown ''unused'')) (''alice'', ''secret'') []"

definition unreachable_fetch_env :: env where
  "unreachable_fetch_env =
     example_env (\<lambda>url. Inr (probe_headers ''true'' ''true'')) (\<lambda>url. Inr ())
       (\<lambda>url. Inl (Thrown ''ECONNRESET'')) (''alice'', ''secret'') []"

text \<open>Two files to upload to an unknown store; on the second peer the PUT of the
  second file is rejected.\<close>

definition two_files :: "file_entry list" where
  "two_files = [\<lparr>name = ''a.txt'', path = ''data/aa''\<rparr>, \<lparr>name = ''b.txt'', path = ''data/bb''\<rparr>]"

definition fresh_headers :: "string \<Rightarrow> error + headers" where
  "fresh_headers url =
     Inr [''x-store-exists'' \<mapsto> ''false'', ''x-has-root-hash'' \<mapsto> ''false'',
          ''x-file-exists'' \<mapsto> ''false'', ''x-nonce'' \<mapsto> ''n1'']"

definition upload_env :: env where
  "upload_env =
     example_env fresh_headers (\<lambda>url. Inr ())
       (\<lambda>url. Inl (Thrown ''unused'')) (''alice'', ''secret'') two_files"



text \<open>A known store that already holds every file of a four-file upload, and a peer that
  serves a six-file manifest for download.\<close>

definition four_files :: "file_entry list" where
  "four_files =
     [\<lparr>name = ''a'', path = ''aa''\<rparr>, \<lparr>name = ''b'', path = ''bb''\<rparr>,
      \<lparr>name = ''c'', path = ''cc''\<rparr>, \<lparr>name = ''d'', path = ''dd''\<rparr>]"

definition busy_upload_env :: env where
  "busy_upload_env =
     example_env
       (\<lambda>url. Inr [''x-store-exists'' \<mapsto> ''true'', ''x-has-root-hash'' \<mapsto> ''false'',
                    ''x-file-exists'' \<mapsto> ''true''])
       (\<lambda>url. Inr ()) (\<lambda>url. Inl (Thrown ''unused'')) ('''', '''') four_files"

definition busy_download_env :: env where
  "busy_download_env =
     (example_env (\<lambda>url. Inr (probe_headers ''true'' ''true'')) (\<lambda>url. Inr ())
        (\<lambda>url. Inr \<lparr>resp_headers = [''content-length'' \<mapsto> ''5''], resp_body = Inr ''hello''\<rparr>)
        ('''', '''') [])
     \<lparr>json_files := (\<lambda>content. Inr [(''61'', ''a''), (''62'', ''b''), (''63'', ''c''),
                                     (''64'', ''d''), (''65'', ''e''), (''66'', ''f'')])\<rparr>"

section \<open>Auxiliary facts\<close>

subsection \<open>The scheduler loop and trace extension\<close>

lemma pool_loop_start:
  assumes "queue \<noteq> []" and "length running < limit"
  shows "pool_loop env limit worker queue running failed s =
         pool_loop env limit worker (tl queue) (running @ [hd queue]) failed
           (emit (TaskStart (fst (hd queue))) s)"
  using assms by (subst pool_loop.simps) simp

lemma pool_loop_settle:
  assumes "\<not> (queue \<noteq> [] \<and> length running < limit)" and "running \<noteq> []"
    and "k = schedule env (trace s) mod length running"
    and "r = worker (snd (running ! k)) s"
  shows "pool_loop env limit worker queue running failed s =
         pool_loop env limit worker queue (remove_nth k running) (first_error failed (fst r))
           (emit (TaskEnd (fst (running ! k)) (\<not> isl (fst r))) (snd r))"
  using assms by (subst pool_loop.simps) (auto simp: Let_def)

lemma pool_loop_done:
  assumes "\<not> (queue \<noteq> [] \<and> length running < limit)" and "running = []"
  shows "pool_loop env limit worker queue running failed s = (failed, s)"
  using assms by (subst pool_loop.simps) auto

lemma pool_loop_rule:
  assumes "I queue running failed s"
    and "\<forall>queue running failed s.
           I queue running failed s \<and> queue \<noteq> [] \<and> length running < limit \<longrightarrow>
           I (tl queue) (running @ [hd queue]) failed (emit (TaskStart (fst (hd queue))) s)"
    and "\<forall>queue running failed s k.
           I queue running failed s \<and> \<not> (queue \<noteq> [] \<and> length running < limit) \<and>
           k < length running \<longrightarrow>
           I queue (remove_nth k running)
             (first_error failed (fst (worker (snd (running ! k)) s)))
             (emit (TaskEnd (fst (running ! k)) (\<not> isl (fst (worker (snd (running ! k)) s))))
                (snd (worker (snd (running ! k)) s)))"
  shows "\<exists>queue'. I queue' [] (fst (pool_loop env limit worker queue running failed s))
                    (snd (pool_loop env limit worker queue running failed s)) \<and>
                  \<not> (queue' \<noteq> [] \<and> 0 < limit)"
  using assms
proof (induction env limit worker queue running failed s rule: pool_loop.induct)
  case (1 env limit worker queue running failed s)
  note start = "1.prems"(2) and settle = "1.prems"(3)
  show ?case
  proof (cases "queue \<noteq> [] \<and> length running < limit")
    case True
    have "I (tl queue) (running @ [hd queue]) failed (emit (TaskStart (fst (hd queue))) s)"
      using "1.prems"(1) start True by blast
    then show ?thesis
      using True "1.IH"(1) start settle by (simp add: pool_loop_start)
  next
    case False
    show ?thesis
    proof (cases "running \<noteq> []")
      case True
      define k where "k = schedule env (trace s) mod length running"
      define r where "r = worker (snd (running ! k)) s"
      have "k < length running" using True by (simp add: k_def)
      then have "I queue (remove_nth k running) (first_error failed (fst r))
                   (emit (TaskEnd (fst (running ! k)) (\<not> isl (fst r))) (snd r))"
        using "1.prems"(1) settle False unfolding r_def by blast
      then show ?thesis
        using "1.IH"(2)[OF False True k_def r_def] start settle
        by (simp add: pool_loop_settle[where worker = worker and r = r and s = s, OF False True k_def r_def])
    next
      case nothing: False
      then show ?thesis using False "1.prems"(1) by (auto simp add: pool_loop_done)
    qed
  qed
qed


lemma addsI:
  "self s' = self s \<Longrightarrow> trace s' = trace s @ evs \<Longrightarrow> list_all P evs \<Longrightarrow> adds P s s'"
  by (simp add: adds_def new_events_def)

lemma addsD:
  assumes "adds P s s'"
  shows "self s' = self s \<and> trace s' = trace s @ new_events s s' \<and> list_all P (new_events s s')"
proof -
  have "take (length (trace s)) (trace s') @ drop (length (trace s)) (trace s') = trace s'"
    by (rule append_take_drop_id)
  with assms show ?thesis by (simp add: adds_def new_events_def)
qed

lemma adds_refl: "adds P s s"
  by (simp add: adds_def new_events_def)

lemma adds_emit:
  assumes "adds P s s'" and "P e"
  shows "adds P s (emit e s')"
proof (rule addsI)
  show "self (emit e s') = self s" using addsD[OF assms(1)] by (simp add: emit_def)
  show "trace (emit e s') = trace s @ (new_events s s' @ [e])"
    using addsD[OF assms(1)] by (simp add: emit_def)
  show "list_all P (new_events s s' @ [e])" using addsD[OF assms(1)] assms(2) by simp
qed

lemma adds_trans:
  assumes "adds P s s'" and "adds P s' s''"
  shows "adds P s s''"
proof (rule addsI)
  show "self s'' = self s" using addsD[OF assms(1)] addsD[OF assms(2)] by simp
  show "trace s'' = trace s @ (new_events s s' @ new_events s' s'')"
    using addsD[OF assms(1)] addsD[OF assms(2)] by simp
  show "list_all P (new_events s s' @ new_events s' s'')"
    using addsD[OF assms(1)] addsD[OF assms(2)] by simp
qed

lemma adds_mono: "adds P s s' \<Longrightarrow> (\<And>e. P e \<Longrightarrow> Q e) \<Longrightarrow> adds Q s s'"
  by (auto simp: adds_def list_all_iff)



lemma checkStoreExists_Inr:
  assumes "checkStoreExists env rootHash s = (Inr (storeExists, rootHashExists), s1)"
  shows "s1 = emit (StoreProbe (store_url s rootHash)) s"
  using assms
  by (auto simp: checkStoreExists_def Let_def split: sum.splits)

lemma checkStoreExists_adds:
  "adds (\<lambda>e. e = StoreProbe (store_url s rootHash)) s (snd (checkStoreExists env rootHash s))"
  by (auto simp: checkStoreExists_def Let_def adds_refl adds_emit split: sum.splits)

lemma getFileNonce_adds:
  "adds (\<lambda>e. e = NonceRequest (upload_url s filename)) s (snd (getFileNonce env filename s))"
  by (auto simp: getFileNonce_def Let_def adds_refl adds_emit split: sum.splits)

lemma upload_url_adds: "adds P s s' \<Longrightarrow> upload_url s' f = upload_url s f"
  by (simp add: upload_url_def base_url_def adds_def)

lemma uploadFile_adds:
  "adds is_upload_event s (snd (uploadFile env label dataPath s))"
proof -
  have n: "adds is_upload_event s (snd (getFileNonce env dataPath s))"
    by (rule adds_mono[OF getFileNonce_adds]) (simp add: is_upload_event_def)
  show ?thesis
    using n
    by (auto simp: uploadFile_def Let_def is_upload_event_def intro!: adds_emit
             split: sum.splits prod.splits)
qed

lemma downloadFile_adds:
  "adds is_download_event s (snd (downloadFile env label dataPath s))"
  by (auto simp: downloadFile_def Let_def is_download_event_def adds_refl intro!: adds_emit
           split: sum.splits)

lemma commitUploadSession_adds:
  "adds is_commit s (snd (commitUploadSession env s))"
  by (auto simp: commitUploadSession_def Let_def is_commit_def adds_refl intro!: adds_emit
           split: sum.splits)

lemma is_task_event_task [simp]:
  "is_task_event (TaskStart i)" "is_task_event (TaskEnd i b)"
  by (simp_all add: is_task_event_def)

lemma asyncPool_snd:
  "snd (asyncPool env limit tasks worker s) =
   snd (pool_loop env limit worker (zip [0..<length tasks] tasks) [] None s)"
  by (auto simp: asyncPool_def split: prod.splits option.splits)


lemma asyncPool_adds:
  assumes "\<forall>t s. adds P s (snd (worker t s))"
  shows "adds (\<lambda>e. P e \<or> is_task_event e) s (snd (asyncPool env limit tasks worker s))"
proof -
  let ?Q = "\<lambda>e. P e \<or> is_task_event e"
  let ?I = "\<lambda>(queue :: (nat \<times> 'a) list) (running :: (nat \<times> 'a) list) (failed :: error option) s'.
              adds ?Q s s'"
  have w: "adds ?Q s s' \<Longrightarrow> adds ?Q s (snd (worker t s'))" for t s'
  proof -
    assume a: "adds ?Q s s'"
    have "adds ?Q s' (snd (worker t s'))"
      by (rule adds_mono[of P]) (use assms in auto)
    with a show "adds ?Q s (snd (worker t s'))" by (rule adds_trans)
  qed
  have "\<exists>queue'. ?I queue' [] (fst (pool_loop env limit worker (zip [0..<length tasks] tasks) [] None s))
                    (snd (pool_loop env limit worker (zip [0..<length tasks] tasks) [] None s)) \<and>
                  \<not> (queue' \<noteq> [] \<and> 0 < limit)"
    by (rule pool_loop_rule[where I = ?I])
       (auto simp: adds_refl intro!: adds_emit w)
  then show ?thesis
    by (simp add: asyncPool_snd)
qed

subsection \<open>Fetching\<close>

lemma fetchFile_falsy_length:
  assumes "createHttpsAgent env s = Inr ()"
    and "axios_get env (trace s @ [Fetch (fetch_url s dataPath)]) (fetch_url s dataPath) = Inr response"
    and "\<not> truthy_number (totalLength response)"
  shows "fetchFile env dataPath s =
           (Inl (Error ''Content-Length header is missing''), emit (Fetch (fetch_url s dataPath)) s)"
  using assms by (simp add: fetchFile_def Let_def emit_def)

lemma downloadFile_falsy_length:
  assumes "dir = path_dirname env (path_join env [STORE_PATH env, storeId (self s), dataPath])"
    and "mkdirSync env (trace s @ [MakeDir dir]) dir = Inr ()"
    and "createHttpsAgent env (emit (MakeDir dir) s) = Inr ()"
    and "axios_get env (trace s @ [MakeDir dir, Fetch (fetch_url s dataPath)]) (fetch_url s dataPath)
           = Inr response"
    and "\<not> truthy_number (totalLength response)"
  shows "downloadFile env label dataPath s =
           (Inl (Error ''Content-Length header is missing''),
            emit (Fetch (fetch_url s dataPath)) (emit (MakeDir dir) s))"
  using assms by (simp add: downloadFile_def Let_def emit_def)

lemma totalLength_absent:
  "resp_headers response ''content-length'' = None \<Longrightarrow> totalLength response = None"
  by (simp add: totalLength_def truthy_def)

lemma parseInt_zero: "parseInt ''0'' = Num 0"
  by (simp add: parseInt_def isWhiteSpace_def isDigit_def digitsValue_def digitValue_def)

lemma totalLength_zero:
  "resp_headers response ''content-length'' = Some ''0'' \<Longrightarrow> totalLength response = Some (Num 0)"
  by (simp add: totalLength_def truthy_def parseInt_zero)

subsection \<open>The upload session\<close>

lemma getFileNonce_exists:
  assumes "createHttpsAgent env s = Inr ()"
    and "axios_head env (trace s @ [NonceRequest (upload_url s filename)]) (upload_url s filename)
           = Inr response_headers"
  shows "getFileNonce env filename s =
           (Inr (response_headers ''x-nonce'', response_headers ''x-file-exists'' = Some ''true''),
            emit (NonceRequest (upload_url s filename)) s)"
  using assms by (simp add: getFileNonce_def Let_def emit_def)

lemma new_events_emit_self [simp]: "new_events s (emit e s) = [e]"
  by (simp add: new_events_def emit_def)

lemmas example_simps =
  example_env_def example_state_def initializeWallet_def new_PropagationServer_def
  createHttpsAgent_def emit_def base_url_def port_def

lemma acquireCredentials_trace:
  "trace (acquireCredentials env s) = trace s @ [CredentialPrompt (ipAddress (self s))]"
  by (simp add: acquireCredentials_def Let_def emit_def)

lemma acquireCredentials_sessionId:
  "sessionId (self (acquireCredentials env s)) = sessionId (self s)"
  by (simp add: acquireCredentials_def Let_def emit_def)

lemma initial_state [simp]:
  "trace (initializeWallet env (new_PropagationServer env ip sid)) = []"
  "sessionId (self (initializeWallet env (new_PropagationServer env ip sid))) = ''''"
  "ipAddress (self (initializeWallet env (new_PropagationServer env ip sid))) = ip"
  "storeId (self (initializeWallet env (new_PropagationServer env ip sid))) = sid"
  "username (self (initializeWallet env (new_PropagationServer env ip sid))) = None"
  "password (self (initializeWallet env (new_PropagationServer env ip sid))) = None"
  by (simp_all add: initializeWallet_def new_PropagationServer_def)

lemma emit_fields [simp]:
  "self (emit e s) = self s" "trace (emit e s) = trace s @ [e]"
  by (simp_all add: emit_def)

lemma uploadStore_rootHashExists:
  assumes "checkStoreExists env (Some rootHash) (initializeWallet env (new_PropagationServer env ip store_id))
             = (Inr (storeExists, True), s1)"
  shows "uploadStore env store_id rootHash ip =
           (Inr (), if storeExists then s1 else acquireCredentials env s1)"
  using assms by (simp add: uploadStore_def Let_def)

subsection \<open>The download session\<close>

lemma downloadStore_no_fetch_without_probe:
  assumes "\<exists>e \<in> set (trace (snd (downloadStore env store_id rootHash ip))). is_fetch e"
  shows "fst (checkStoreExists env (Some rootHash)
                (initializeWallet env (new_PropagationServer env ip store_id))) = Inr (True, True)"
proof -
  let ?s0 = "initializeWallet env (new_PropagationServer env ip store_id)"
  let ?c = "checkStoreExists env (Some rootHash) ?s0"
  have probe_only: "\<forall>e \<in> set (trace (snd ?c)). \<not> is_fetch e"
  proof -
    from addsD[OF checkStoreExists_adds[of ?s0 "Some rootHash" env]]
    have "list_all (\<lambda>e. e = StoreProbe (store_url ?s0 (Some rootHash))) (trace (snd ?c))"
      by simp
    then show ?thesis by (auto simp: list_all_iff is_fetch_def)
  qed
  obtain r s1 where c: "?c = (r, s1)" by (cases ?c)
  show ?thesis
  proof (cases r)
    case (Inl e)
    then have "snd (downloadStore env store_id rootHash ip) = snd ?c"
      using c by (simp add: downloadStore_def Let_def)
    with assms probe_only show ?thesis by simp
  next
    case (Inr p)
    show ?thesis
    proof (cases "fst p \<and> snd p")
      case True
      with Inr c show ?thesis by (cases p) simp
    next
      case False
      with Inr c have "snd (downloadStore env store_id rootHash ip) = snd ?c"
        by (cases p) (auto simp add: downloadStore_def Let_def)
      with assms probe_only show ?thesis by simp
    qed
  qed
qed

subsection \<open>Runs of \<open>uploadStore\<close>\<close>

lemma uploadStore_run:
  fixes env :: env and store_id rootHash ip :: string
  defines "s0 \<equiv> initializeWallet env (new_PropagationServer env ip store_id)"
  defines "pool \<equiv> asyncPool env upload_concurrencyLimit (upload_tasks env store_id rootHash)
                     (\<lambda>task. uploadFile env (fst task) (snd task))"
  obtains
    (probe_failed) e s1 where
      "checkStoreExists env (Some rootHash) s0 = (Inl e, s1)"
      "uploadStore env store_id rootHash ip = (Inl e, s1)"
  | (replicated) storeExists s1 where
      "checkStoreExists env (Some rootHash) s0 = (Inr (storeExists, True), s1)"
      "uploadStore env store_id rootHash ip =
         (Inr (), if storeExists then s1 else acquireCredentials env s1)"
  | (start_failed) storeExists s1 e s3 where
      "checkStoreExists env (Some rootHash) s0 = (Inr (storeExists, False), s1)"
      "startUploadSession env rootHash (if storeExists then s1 else acquireCredentials env s1)
         = (Inl e, s3)"
      "uploadStore env store_id rootHash ip = (Inl e, s3)"
  | (upload_failed) storeExists s1 s3 e s4 where
      "checkStoreExists env (Some rootHash) s0 = (Inr (storeExists, False), s1)"
      "startUploadSession env rootHash (if storeExists then s1 else acquireCredentials env s1)
         = (Inr (), s3)"
      "pool s3 = (Inl e, s4)"
      "uploadStore env store_id rootHash ip = (Inl e, s4)"
  | (committed) storeExists s1 s3 s4 r s5 where
      "checkStoreExists env (Some rootHash) s0 = (Inr (storeExists, False), s1)"
      "startUploadSession env rootHash (if storeExists then s1 else acquireCredentials env s1)
         = (Inr (), s3)"
      "pool s3 = (Inr (), s4)"
      "commitUploadSession env s4 = (r, s5)"
      "uploadStore env store_id rootHash ip =
         (case r of Inl e \<Rightarrow> Inl e | Inr _ \<Rightarrow> Inr (), s5)"
proof -
  obtain r1 s1 where c: "checkStoreExists env (Some rootHash) s0 = (r1, s1)"
    by (cases "checkStoreExists env (Some rootHash) s0")
  show thesis
  proof (cases r1)
    case (Inl e)
    with c show thesis
      by (intro probe_failed[of e s1]) (simp_all add: uploadStore_def s0_def)
  next
    case (Inr flags)
    obtain storeExists rootHashExists where f: "flags = (storeExists, rootHashExists)"
      by (cases flags)
    let ?s2 = "if storeExists then s1 else acquireCredentials env s1"
    show thesis
    proof (cases rootHashExists)
      case True
      with c Inr f show thesis
        by (intro replicated[of storeExists s1]) (simp_all add: uploadStore_def s0_def)
    next
      case False
      obtain r3 s3 where st: "startUploadSession env rootHash ?s2 = (r3, s3)"
        by (cases "startUploadSession env rootHash ?s2")
      show thesis
      proof (cases r3)
        case (Inl e)
        with c Inr f False st show thesis
          by (intro start_failed[of storeExists s1 e s3])
             ((cases storeExists; simp add: uploadStore_def s0_def)+)
      next
        case started: (Inr u)
        obtain r4 s4 where p: "pool s3 = (r4, s4)" by (cases "pool s3")
        show thesis
        proof (cases r4)
          case (Inl e)
          with c Inr f False st started p show thesis
            by (intro upload_failed[of storeExists s1 s3 e s4])
               ((cases storeExists; simp add: uploadStore_def s0_def pool_def upload_tasks_def)+)
        next
          case uploaded: (Inr u')
          obtain r s5 where cm: "commitUploadSession env s4 = (r, s5)"
            by (cases "commitUploadSession env s4")
          with c Inr f False st started p uploaded show thesis
            by (intro committed[of storeExists s1 s3 s4 r s5])
               ((cases storeExists;
                 simp add: uploadStore_def s0_def pool_def upload_tasks_def split: sum.splits)+)
        qed
      qed
    qed
  qed
qed

subsection \<open>The outcome of the scheduler\<close>





subsection \<open>Session start and commit\<close>

lemma startUploadSession_cases:
  assumes "startUploadSession env rootHash s = (r, s')"
  shows "(isl r \<and> (s' = s \<or> s' = emit (SessionStart (session_url s rootHash) (basic_auth s)) s)) \<or>
         (r = Inr () \<and>
          (\<exists>sid. axios_post env (trace s @ [SessionStart (session_url s rootHash) (basic_auth s)])
                   (session_url s rootHash) (basic_auth s) = Inr sid \<and>
                 s' = (emit (SessionStart (session_url s rootHash) (basic_auth s)) s)
                        \<lparr>self := (self s)\<lparr>sessionId := sid\<rparr>\<rparr>))"
proof (cases "existsSync env (trace s)
               (path_join env [STORE_PATH env, storeId (self s), rootHash @ ''.dat''])")
  case False
  then have "startUploadSession env rootHash s =
               (Inl (Error (''File not found: '' @
                  path_join env [STORE_PATH env, storeId (self s), rootHash @ ''.dat''])), s)"
    by (simp add: startUploadSession_def Let_def)
  with assms have "isl r" "s' = s" by auto
  then show ?thesis by simp
next
  case True
  show ?thesis
  proof (cases "createHttpsAgent env s")
    case (Inl e)
    with True have "startUploadSession env rootHash s = (Inl e, s)"
      by (simp add: startUploadSession_def Let_def)
    with assms have "isl r" "s' = s" by auto
    then show ?thesis by simp
  next
    case (Inr u)
    let ?s1 = "emit (SessionStart (session_url s rootHash) (basic_auth s)) s"
    show ?thesis
    proof (cases "axios_post env (trace s @ [SessionStart (session_url s rootHash) (basic_auth s)])
                    (session_url s rootHash) (basic_auth s)")
      case (Inl e)
      with True Inr have "startUploadSession env rootHash s = (Inl e, ?s1)"
        by (simp add: startUploadSession_def Let_def)
      with assms have "isl r" "s' = ?s1" by auto
      then show ?thesis by simp
    next
      case post: (Inr sid)
      with True Inr have "startUploadSession env rootHash s =
                            (Inr (), ?s1\<lparr>self := (self s)\<lparr>sessionId := sid\<rparr>\<rparr>)"
        by (simp add: startUploadSession_def Let_def)
      with assms have "r = Inr ()" "s' = ?s1\<lparr>self := (self s)\<lparr>sessionId := sid\<rparr>\<rparr>" by auto
      with post show ?thesis by simp
    qed
  qed
qed

lemma startUploadSession_trace:
  assumes "startUploadSession env rootHash s = (r, s')"
  shows "trace s' = trace s \<or>
         trace s' = trace s @ [SessionStart (session_url s rootHash) (basic_auth s)]"
  using startUploadSession_cases[OF assms] by auto

lemma startUploadSession_started:
  assumes "startUploadSession env rootHash s = (Inr (), s')"
  shows "trace s' = trace s @ [SessionStart (session_url s rootHash) (basic_auth s)]"
    and "username (self s') = username (self s)" and "password (self s') = password (self s)"
    and "storeId (self s') = storeId (self s)" and "ipAddress (self s') = ipAddress (self s)"
  using startUploadSession_cases[OF assms] by auto

lemma commitUploadSession_cases:
  assumes "commitUploadSession env s = (r, s')"
  shows "(isl r \<and> s' = s) \<or> s' = emit (Commit (commit_url s) (basic_auth s)) s"
proof (cases "createHttpsAgent env s")
  case (Inl e)
  then have "commitUploadSession env s = (Inl e, s)"
    by (simp add: commitUploadSession_def)
  with assms have "isl r" "s' = s" by auto
  then show ?thesis by simp
next
  case (Inr u)
  then have "snd (commitUploadSession env s) = emit (Commit (commit_url s) (basic_auth s)) s"
    by (simp add: commitUploadSession_def Let_def split: sum.splits)
  with assms show ?thesis by simp
qed

lemma commitUploadSession_Inr:
  assumes "commitUploadSession env s = (Inr d, s')"
  shows "s' = emit (Commit (commit_url s) (basic_auth s)) s"
  using commitUploadSession_cases[OF assms] by auto

lemma setup_trace:
  assumes "checkStoreExists env (Some rootHash)
             (initializeWallet env (new_PropagationServer env ip store_id)) =
             (Inr (storeExists, rootHashExists), s1)"
  shows "trace (if storeExists then s1 else acquireCredentials env s1) =
           StoreProbe (store_url (initializeWallet env (new_PropagationServer env ip store_id))
                         (Some rootHash)) #
           (if storeExists then [] else [CredentialPrompt ip])"
  using checkStoreExists_Inr[OF assms]
  by (simp add: acquireCredentials_trace)

lemma setup_events:
  assumes "checkStoreExists env (Some rootHash)
             (initializeWallet env (new_PropagationServer env ip store_id)) =
             (Inr (storeExists, rootHashExists), s1)"
    and "startUploadSession env rootHash (if storeExists then s1 else acquireCredentials env s1)
           = (r, s3)"
  shows "list_all is_setup_event (trace s3)"
  using startUploadSession_trace[OF assms(2)] setup_trace[OF assms(1)]
  by (auto simp: is_setup_event_def)

lemma upload_worker_quiet:
  "\<forall>t s. adds (\<lambda>e. \<not> is_task_event e) s (snd (uploadFile env (fst t) (snd t) s))"
proof (intro allI)
  fix t :: "string \<times> string" and s
  show "adds (\<lambda>e. \<not> is_task_event e) s (snd (uploadFile env (fst t) (snd t) s))"
    by (rule adds_mono[OF uploadFile_adds]) (auto simp: is_upload_event_def is_task_event_def split: event.splits)
qed

lemma upload_pool_events:
  "adds (\<lambda>e. is_upload_event e \<or> is_task_event e) s
     (snd (asyncPool env limit tasks (\<lambda>task. uploadFile env (fst task) (snd task)) s))"
  by (rule asyncPool_adds) (simp add: uploadFile_adds)

lemma setup_event_kind:
  assumes "is_setup_event e"
  shows "\<not> is_commit e" and "\<not> is_upload_event e" and "\<not> is_task_event e"
  using assms
  by (cases e; simp add: is_setup_event_def is_commit_def is_upload_event_def is_task_event_def)+





subsection \<open>Example runs\<close>

lemmas upload_run_simps =
  uploadStore_def checkStoreExists_def acquireCredentials_def startUploadSession_def
  asyncPool_def pool_loop.simps remove_nth_def first_error_def uploadFile_def getFileNonce_def
  commitUploadSession_def upload_concurrencyLimit_def basic_auth_def truthy_def store_url_def
  session_url_def upload_url_def commit_url_def Let_def

lemma upload_env_run:
  "uploadStore upload_env ''store1'' ''root1'' ''10.0.0.1'' =
     (Inr (),
      \<lparr>self = \<lparr>storeId = ''store1'', sessionId = ''session-1'', publicKey = ''a1b2'',
                ipAddress = ''10.0.0.1'', certPath = ''client.crt'', keyPath = ''client.key'',
                username = Some ''alice'', password = Some ''secret''\<rparr>,
       trace =
         [StoreProbe ''https://10.0.0.1:4159/store1?hasRootHash=root1'',
          CredentialPrompt ''10.0.0.1'',
          SessionStart ''https://10.0.0.1:4159/upload/store1?roothash=root1''
            (Some (''alice'', ''secret'')),
          TaskStart 0, TaskStart 1,
          NonceRequest ''https://10.0.0.1:4159/upload/store1/session-1/data/aa'',
          Signature (Some ''n1''),
          FilePut ''https://10.0.0.1:4159/upload/store1/session-1/data/aa''
            (Some ''n1'') ''a1b2'' ''sig'',
          TaskEnd 0 True,
          NonceRequest ''https://10.0.0.1:4159/upload/store1/session-1/data/bb'',
          Signature (Some ''n1''),
          FilePut ''https://10.0.0.1:4159/upload/store1/session-1/data/bb''
            (Some ''n1'') ''a1b2'' ''sig'',
          TaskEnd 1 True,
          Commit ''https://10.0.0.1:4159/commit/store1/session-1''
            (Some (''alice'', ''secret''))]\<rparr>)"
  by (simp add: upload_env_def fresh_headers_def two_files_def upload_run_simps example_simps)


subsection \<open>Basic auth\<close>






subsection \<open>The session id in urls\<close>

lemma uses_session_self:
  assumes "self s' = self s"
  shows "uses_session s' = uses_session s"
proof -
  have "upload_prefix s' = upload_prefix s" and "commit_url s' = commit_url s"
    using assms by (simp_all add: upload_prefix_def commit_url_def base_url_def)
  then show ?thesis by (intro ext) (simp add: uses_session_def split: event.splits)
qed

lemma upload_url_prefix: "upload_url s filename = upload_prefix s @ filename"
  by (simp add: upload_url_def upload_prefix_def)

lemma uses_session_upload_url [simp]:
  "take (length (upload_prefix s)) (upload_url s filename) = upload_prefix s"
  by (simp add: upload_url_prefix)

lemma upload_url_self: "self s' = self s \<Longrightarrow> upload_url s' f = upload_url s f"
  by (simp add: upload_url_def base_url_def)

lemma getFileNonce_Inr:
  assumes "getFileNonce env filename s = (Inr v, s1)"
  shows "s1 = emit (NonceRequest (upload_url s filename)) s"
  using assms by (auto simp: getFileNonce_def Let_def split: sum.splits)

lemma uploadFile_session_adds:
  "adds (\<lambda>e. is_upload_event e \<and> uses_session s e) s (snd (uploadFile env label dataPath s))"
proof -
  let ?P = "\<lambda>e. is_upload_event e \<and> uses_session s e"
  obtain r s1 where n: "getFileNonce env dataPath s = (r, s1)"
    by (cases "getFileNonce env dataPath s")
  have "adds (\<lambda>e. e = NonceRequest (upload_url s dataPath)) s (snd (getFileNonce env dataPath s))"
    by (rule getFileNonce_adds)
  then have "adds ?P s (snd (getFileNonce env dataPath s))"
    by (rule adds_mono) (simp add: is_upload_event_def uses_session_def)
  then have a1: "adds ?P s s1" by (simp add: n)
  show ?thesis
  proof (cases r)
    case (Inl e)
    have "uploadFile env label dataPath s = (Inl e, s1)"
      by (simp add: uploadFile_def n Inl)
    then show ?thesis by (simp add: a1)
  next
    case (Inr v)
    obtain nonce fileExists where v: "v = (nonce, fileExists)" by (cases v)
    have n': "getFileNonce env dataPath s = (Inr (nonce, fileExists), s1)"
      by (simp add: n Inr v)
    have self1: "self s1 = self s" using a1 by (simp add: adds_def)
    let ?s2 = "emit (Signature nonce) s1"
    have p2: "?P (Signature nonce)" by (simp add: is_upload_event_def uses_session_def)
    have a2: "adds ?P s ?s2" by (rule adds_emit[OF a1 p2])
    let ?put = "FilePut (upload_url ?s2 dataPath) nonce (wallet_publicKey env) (wallet_sign env nonce)"
    let ?s3 = "emit ?put ?s2"
    have "upload_url ?s2 dataPath = upload_url s dataPath"
      by (rule upload_url_self) (simp add: self1)
    then have p3: "?P ?put" by (simp add: is_upload_event_def uses_session_def)
    have a3: "adds ?P s ?s3" by (rule adds_emit[OF a2 p3])
    let ?path = "path_join env [STORE_PATH env, storeId (self s), dataPath]"
    have "snd (uploadFile env label dataPath s) = s1 \<or>
          snd (uploadFile env label dataPath s) = ?s2 \<or>
          snd (uploadFile env label dataPath s) = ?s3"
      by (simp add: uploadFile_def n' Let_def split: sum.splits)
    then show ?thesis
    proof (elim disjE)
      assume "snd (uploadFile env label dataPath s) = s1"
      then show ?thesis by (simp only: a1)
    next
      assume "snd (uploadFile env label dataPath s) = ?s2"
      then show ?thesis by (simp only: a2)
    next
      assume "snd (uploadFile env label dataPath s) = ?s3"
      then show ?thesis by (simp only: a3)
    qed
  qed
qed

lemma asyncPool_adds_self:
  assumes "\<forall>t s'. self s' = self s \<longrightarrow> adds P s' (snd (worker t s'))"
  shows "adds (\<lambda>e. P e \<or> is_task_event e) s (snd (asyncPool env limit tasks worker s))"
proof -
  let ?Q = "\<lambda>e. P e \<or> is_task_event e"
  let ?I = "\<lambda>(queue :: (nat \<times> 'a) list) (running :: (nat \<times> 'a) list) (failed :: error option) s'.
              adds ?Q s s'"
  have w: "adds ?Q s s' \<Longrightarrow> adds ?Q s (snd (worker t s'))" for t s'
  proof -
    assume a: "adds ?Q s s'"
    then have "self s' = self s" using addsD by blast
    then have "adds P s' (snd (worker t s'))" using assms by blast
    then have "adds ?Q s' (snd (worker t s'))" by (rule adds_mono) simp
    with a show "adds ?Q s (snd (worker t s'))" by (rule adds_trans)
  qed
  have "\<exists>queue'. ?I queue' [] (fst (pool_loop env limit worker (zip [0..<length tasks] tasks) [] None s))
                    (snd (pool_loop env limit worker (zip [0..<length tasks] tasks) [] None s)) \<and>
                  \<not> (queue' \<noteq> [] \<and> 0 < limit)"
    by (rule pool_loop_rule[where I = ?I])
       (auto simp: adds_refl intro!: adds_emit w)
  then show ?thesis
    by (simp add: asyncPool_snd)
qed

lemma upload_pool_session_events:
  "adds (\<lambda>e. (is_upload_event e \<and> uses_session s e) \<or> is_task_event e) s
     (snd (asyncPool env limit tasks (\<lambda>task. uploadFile env (fst task) (snd task)) s))"
proof (rule asyncPool_adds_self, intro allI impI)
  fix t :: "string \<times> string" and s' :: state
  assume "self s' = self s"
  then have "uses_session s' = uses_session s" by (rule uses_session_self)
  with uploadFile_session_adds[of s' env "fst t" "snd t"]
  show "adds (\<lambda>e. is_upload_event e \<and> uses_session s e) s' (snd (uploadFile env (fst t) (snd t) s'))"
    by simp
qed

lemma setup_event_session:
  assumes "is_setup_event e"
  shows "uses_session s e"
  using assms by (cases e; simp add: is_setup_event_def uses_session_def)

lemma upload_event_not_start:
  assumes "(is_upload_event e \<and> uses_session s e) \<or> is_task_event e"
  shows "\<not> is_session_start e" and "uses_session s e"
  using assms
  by (cases e; simp add: is_upload_event_def is_task_event_def is_session_start_def uses_session_def)+

lemma uploadStore_session_shape:
  fixes env :: env and store_id rootHash ip :: string
  defines "final \<equiv> snd (uploadStore env store_id rootHash ip)"
  shows "list_all (uses_session final) (trace final) \<and>
         length (filter is_session_start (trace final)) \<le> 1 \<and>
         (filter is_session_start (trace final) = [] \<longrightarrow> sessionId (self final) = '''')"
proof (cases rule: uploadStore_run[of env rootHash ip store_id])
  case (probe_failed e s1)
  let ?s0 = "initializeWallet env (new_PropagationServer env ip store_id)"
  have "adds (\<lambda>e. e = StoreProbe (store_url ?s0 (Some rootHash))) ?s0 s1"
    using checkStoreExists_adds[of ?s0 "Some rootHash" env] probe_failed(1) by simp
  from addsD[OF this]
  have self1: "self s1 = self ?s0"
    and probes: "list_all (\<lambda>e. e = StoreProbe (store_url ?s0 (Some rootHash))) (trace s1)"
    by simp_all
  have f: "final = s1" using probe_failed(2) by (simp add: final_def)
  have "filter is_session_start (trace s1) = []"
    using probes by (auto simp: list_all_iff filter_empty_conv is_session_start_def)
  moreover have "list_all (uses_session s1) (trace s1)"
    using probes by (auto simp: list_all_iff uses_session_def)
  moreover have "sessionId (self s1) = ''''" by (simp add: self1)
  ultimately show ?thesis by (simp add: f)
next
  case (replicated storeExists s1)
  have f: "final = (if storeExists then s1 else acquireCredentials env s1)"
    using replicated(2) by (simp add: final_def)
  have "s1 = emit (StoreProbe (store_url (initializeWallet env (new_PropagationServer env ip store_id))
                     (Some rootHash))) (initializeWallet env (new_PropagationServer env ip store_id))"
    using replicated(1) by (rule checkStoreExists_Inr)
  then have "sessionId (self final) = ''''"
    unfolding f by (simp add: acquireCredentials_sessionId)
  moreover have "list_all (uses_session final) (trace final)"
    "filter is_session_start (trace final) = []"
    unfolding f using setup_trace[OF replicated(1)]
    by (simp_all add: uses_session_def is_session_start_def)
  ultimately show ?thesis by simp
next
  case (start_failed storeExists s1 e s3)
  let ?s2 = "if storeExists then s1 else acquireCredentials env s1"
  have f: "final = s3" using start_failed(3) by (simp add: final_def)
  have s1: "s1 = emit (StoreProbe (store_url (initializeWallet env (new_PropagationServer env ip store_id))
                     (Some rootHash))) (initializeWallet env (new_PropagationServer env ip store_id))"
    using start_failed(1) by (rule checkStoreExists_Inr)
  have sid2: "sessionId (self ?s2) = ''''"
    by (simp add: s1 acquireCredentials_sessionId)
  have nostart2: "filter is_session_start (trace ?s2) = []"
    using setup_trace[OF start_failed(1)] by (simp add: is_session_start_def)
  have setup3: "list_all is_setup_event (trace s3)"
    by (rule setup_events[OF start_failed(1,2)])
  then have 1: "list_all (uses_session final) (trace final)"
    unfolding f by (auto simp: list_all_iff setup_event_session)
  from startUploadSession_cases[OF start_failed(2)]
  have "s3 = ?s2 \<or> s3 = emit (SessionStart (session_url ?s2 rootHash) (basic_auth ?s2)) ?s2"
    by auto
  then have "length (filter is_session_start (trace s3)) \<le> 1 \<and> sessionId (self s3) = ''''"
    using nostart2 sid2 by (elim disjE) (simp_all del: if_split add: is_session_start_def)
  with 1 show ?thesis by (simp add: f)
next
  case (upload_failed storeExists s1 s3 e s4)
  let ?s2 = "if storeExists then s1 else acquireCredentials env s1"
  have f: "final = s4" using upload_failed(4) by (simp add: final_def)
  have nostart2: "filter is_session_start (trace ?s2) = []"
    using setup_trace[OF upload_failed(1)] by (simp add: is_session_start_def)
  have tr3: "trace s3 = trace ?s2 @ [SessionStart (session_url ?s2 rootHash) (basic_auth ?s2)]"
    by (rule startUploadSession_started(1)[OF upload_failed(2)])
  have setup3: "list_all is_setup_event (trace s3)"
    by (rule setup_events[OF upload_failed(1,2)])
  let ?pool = "asyncPool env upload_concurrencyLimit (upload_tasks env store_id rootHash)
                 (\<lambda>task. uploadFile env (fst task) (snd task))"
  have "adds (\<lambda>e. (is_upload_event e \<and> uses_session s3 e) \<or> is_task_event e) s3 (snd (?pool s3))"
    by (rule upload_pool_session_events)
  from addsD[OF this] upload_failed(3)
  have self4: "self s4 = self s3" and tr4: "trace s4 = trace s3 @ new_events s3 s4"
    and evs: "list_all (\<lambda>e. (is_upload_event e \<and> uses_session s3 e) \<or> is_task_event e)
                (new_events s3 s4)"
    by simp_all
  have us: "uses_session s4 = uses_session s3" using self4 by (rule uses_session_self)
  have 1: "list_all (uses_session s4) (trace s4)"
    using setup3 evs upload_event_not_start(2)
    by (auto simp: tr4 us list_all_iff setup_event_session)
  have "filter is_session_start (new_events s3 s4) = []"
    using evs upload_event_not_start(1) by (auto simp: list_all_iff filter_empty_conv)
  then have 2: "length (filter is_session_start (trace s4)) = 1"
    using nostart2 by (simp del: if_split add: tr4 tr3 is_session_start_def)
  from 2 have "filter is_session_start (trace s4) \<noteq> []" by auto
  with 1 2 show ?thesis by (simp add: f)
next
  case (committed storeExists s1 s3 s4 r s5)
  let ?s2 = "if storeExists then s1 else acquireCredentials env s1"
  have f: "final = s5" using committed(5) by (simp add: final_def)
  have nostart2: "filter is_session_start (trace ?s2) = []"
    using setup_trace[OF committed(1)] by (simp add: is_session_start_def)
  have tr3: "trace s3 = trace ?s2 @ [SessionStart (session_url ?s2 rootHash) (basic_auth ?s2)]"
    by (rule startUploadSession_started(1)[OF committed(2)])
  have setup3: "list_all is_setup_event (trace s3)"
    by (rule setup_events[OF committed(1,2)])
  let ?pool = "asyncPool env upload_concurrencyLimit (upload_tasks env store_id rootHash)
                 (\<lambda>task. uploadFile env (fst task) (snd task))"
  have "adds (\<lambda>e. (is_upload_event e \<and> uses_session s3 e) \<or> is_task_event e) s3 (snd (?pool s3))"
    by (rule upload_pool_session_events)
  from addsD[OF this] committed(3)
  have self4: "self s4 = self s3" and tr4: "trace s4 = trace s3 @ new_events s3 s4"
    and evs: "list_all (\<lambda>e. (is_upload_event e \<and> uses_session s3 e) \<or> is_task_event e)
                (new_events s3 s4)"
    by simp_all
  have us: "uses_session s4 = uses_session s3" using self4 by (rule uses_session_self)
  have 1: "list_all (uses_session s4) (trace s4)"
    using setup3 evs upload_event_not_start(2)
    by (auto simp: tr4 us list_all_iff setup_event_session)
  have "filter is_session_start (new_events s3 s4) = []"
    using evs upload_event_not_start(1) by (auto simp: list_all_iff filter_empty_conv)
  then have 2: "length (filter is_session_start (trace s4)) = 1"
    using nostart2 by (simp del: if_split add: tr4 tr3 is_session_start_def)
  from 2 have 3: "filter is_session_start (trace s4) \<noteq> []" by auto
  from commitUploadSession_cases[OF committed(4)]
  have "s5 = s4 \<or> s5 = emit (Commit (commit_url s4) (basic_auth s4)) s4" by blast
  then show ?thesis
  proof
    assume "s5 = s4"
    with 1 2 3 show ?thesis by (simp add: f)
  next
    assume s5: "s5 = emit (Commit (commit_url s4) (basic_auth s4)) s4"
    then have "self s5 = self s4" by simp
    then have "uses_session s5 = uses_session s4" by (rule uses_session_self)
    then have "list_all (uses_session s5) (trace s5)"
      using 1 by (simp add: s5 uses_session_def)
    moreover have "length (filter is_session_start (trace s5)) = 1"
      using 2 by (simp add: s5 is_session_start_def)
    moreover from this have "filter is_session_start (trace s5) \<noteq> []" by auto
    ultimately show ?thesis by (simp add: f)
  qed
qed

subsection \<open>Tasks in flight\<close>

lemma in_flight_append: "in_flight (xs @ ys) = in_flight xs + in_flight ys"
  by (simp add: in_flight_def)

lemma in_flight_Nil [simp]: "in_flight [] = 0"
  by (simp add: in_flight_def)

lemma in_flight_single:
  "in_flight [e] = (case e of TaskStart _ \<Rightarrow> 1 | TaskEnd _ _ \<Rightarrow> - 1 | _ \<Rightarrow> 0)"
  by (cases e) (simp_all add: in_flight_def)

lemma in_flight_quiet:
  assumes "list_all (\<lambda>e. \<not> is_task_event e) evs"
  shows "in_flight evs = 0"
proof -
  have "filter (\<lambda>e. case e of TaskStart _ \<Rightarrow> True | _ \<Rightarrow> False) evs = []"
    using assms by (auto simp: list_all_iff filter_empty_conv is_task_event_def split: event.splits)
  moreover have "filter (\<lambda>e. case e of TaskEnd _ _ \<Rightarrow> True | _ \<Rightarrow> False) evs = []"
    using assms by (auto simp: list_all_iff filter_empty_conv is_task_event_def split: event.splits)
  ultimately show ?thesis by (simp add: in_flight_def)
qed

lemma quiet_take:
  assumes "list_all (\<lambda>e. \<not> is_task_event e) evs"
  shows "list_all (\<lambda>e. \<not> is_task_event e) (take k evs)"
  using assms by (auto simp: list_all_iff dest: in_set_takeD)

lemma bounded_in_flight_total:
  assumes "bounded_in_flight limit tr"
  shows "in_flight tr \<le> int limit"
proof -
  from assms have "in_flight (take (length tr) tr) \<le> int limit"
    unfolding bounded_in_flight_def by blast
  then show ?thesis by simp
qed

lemma bounded_in_flight_quiet:
  assumes "bounded_in_flight limit tr" and "list_all (\<lambda>e. \<not> is_task_event e) evs"
  shows "bounded_in_flight limit (tr @ evs)" and "in_flight (tr @ evs) = in_flight tr"
proof -
  show "in_flight (tr @ evs) = in_flight tr"
    using in_flight_quiet[OF assms(2)] by (simp add: in_flight_append)
  show "bounded_in_flight limit (tr @ evs)"
    unfolding bounded_in_flight_def
  proof
    fix k
    have "in_flight (take (k - length tr) evs) = 0"
      by (rule in_flight_quiet[OF quiet_take[OF assms(2)]])
    then have "in_flight (take k (tr @ evs)) = in_flight (take k tr)"
      by (simp add: in_flight_append)
    then show "in_flight (take k (tr @ evs)) \<le> int limit"
      using assms(1) by (simp add: bounded_in_flight_def)
  qed
qed

lemma bounded_in_flight_Nil [simp]: "bounded_in_flight limit []"
  by (simp add: bounded_in_flight_def)

lemma bounded_in_flight_only_quiet:
  assumes "list_all (\<lambda>e. \<not> is_task_event e) evs"
  shows "bounded_in_flight limit evs" and "in_flight evs = 0"
  using bounded_in_flight_quiet[of limit "[]" evs] assms by simp_all

lemma bounded_in_flight_snoc:
  assumes "bounded_in_flight limit tr" and "in_flight (tr @ [e]) \<le> int limit"
  shows "bounded_in_flight limit (tr @ [e])"
  unfolding bounded_in_flight_def
proof
  fix k
  show "in_flight (take k (tr @ [e])) \<le> int limit"
  proof (cases "k \<le> length tr")
    case True
    then have "take k (tr @ [e]) = take k tr" by simp
    with assms(1) show ?thesis by (simp add: bounded_in_flight_def)
  next
    case False
    then have "take k (tr @ [e]) = tr @ [e]" by simp
    with assms(2) show ?thesis by simp
  qed
qed

lemma length_remove_nth_eq:
  "k < length xs \<Longrightarrow> length (remove_nth k xs) = length xs - 1"
  by (simp add: remove_nth_def)

lemma asyncPool_bounded:
  fixes worker :: "'t \<Rightarrow> state \<Rightarrow> (error + unit) \<times> state"
  assumes quiet: "\<forall>t s. adds (\<lambda>e. \<not> is_task_event e) s (snd (worker t s))"
    and init: "bounded_in_flight limit (trace s)" "in_flight (trace s) = 0"
  shows "bounded_in_flight limit (trace (snd (asyncPool env limit tasks worker s))) \<and>
         in_flight (trace (snd (asyncPool env limit tasks worker s))) = 0"
proof -
  let ?I = "\<lambda>(queue :: (nat \<times> 't) list) (running :: (nat \<times> 't) list) (failed :: error option) s'.
      bounded_in_flight limit (trace s') \<and> in_flight (trace s') = int (length running) \<and>
      length running \<le> limit"
  have i: "?I (zip [0..<length tasks] tasks) [] None s"
    using init by simp
  have start: "\<forall>queue running failed s'.
           ?I queue running failed s' \<and> queue \<noteq> [] \<and> length running < limit \<longrightarrow>
           ?I (tl queue) (running @ [hd queue]) failed (emit (TaskStart (fst (hd queue))) s')"
  proof (intro allI impI, elim conjE)
    fix queue running :: "(nat \<times> 't) list" and failed :: "error option" and s' :: state
    assume b: "bounded_in_flight limit (trace s')"
      and c: "in_flight (trace s') = int (length running)"
      and l: "length running < limit"
    have n: "in_flight (trace s' @ [TaskStart (fst (hd queue))]) = int (length running) + 1"
      using c by (simp add: in_flight_append in_flight_single)
    then have "bounded_in_flight limit (trace s' @ [TaskStart (fst (hd queue))])"
      using b l by (intro bounded_in_flight_snoc) simp_all
    with n l show "?I (tl queue) (running @ [hd queue]) failed (emit (TaskStart (fst (hd queue))) s')"
      by simp
  qed
  have settle: "\<forall>queue running failed s' k.
           ?I queue running failed s' \<and> \<not> (queue \<noteq> [] \<and> length running < limit) \<and>
           k < length running \<longrightarrow>
           ?I queue (remove_nth k running)
             (first_error failed (fst (worker (snd (running ! k)) s')))
             (emit (TaskEnd (fst (running ! k)) (\<not> isl (fst (worker (snd (running ! k)) s'))))
                (snd (worker (snd (running ! k)) s')))"
  proof (intro allI impI, elim conjE)
    fix queue running :: "(nat \<times> 't) list" and failed :: "error option"
      and s' :: state and k :: nat
    assume b: "bounded_in_flight limit (trace s')"
      and c: "in_flight (trace s') = int (length running)"
      and l: "length running \<le> limit"
      and k: "k < length running"
    define r where "r = worker (snd (running ! k)) s'"
    define j where "j = fst (running ! k)"
    have w: "adds (\<lambda>e. \<not> is_task_event e) s' (snd r)"
      using quiet by (simp add: r_def)
    from addsD[OF w] have tr: "trace (snd r) = trace s' @ new_events s' (snd r)"
      and q: "list_all (\<lambda>e. \<not> is_task_event e) (new_events s' (snd r))"
      by simp_all
    have b1: "bounded_in_flight limit (trace (snd r))"
      and c1: "in_flight (trace (snd r)) = int (length running)"
      using bounded_in_flight_quiet[OF b q] c by (simp_all add: tr)
    have n: "in_flight (trace (snd r) @ [TaskEnd j (\<not> isl (fst r))]) = int (length running) - 1"
      using c1 by (simp add: in_flight_append in_flight_single)
    then have b2: "bounded_in_flight limit (trace (snd r) @ [TaskEnd j (\<not> isl (fst r))])"
      using b1 l by (intro bounded_in_flight_snoc) simp_all
    have len: "int (length (remove_nth k running)) = int (length running) - 1"
      using k by (simp add: length_remove_nth_eq)
    have "length (remove_nth k running) \<le> limit"
      using k l by (simp add: length_remove_nth_eq)
    with b2 n len
    have "?I queue (remove_nth k running) (first_error failed (fst r))
            (emit (TaskEnd j (\<not> isl (fst r))) (snd r))"
      by simp
    then show "?I queue (remove_nth k running)
             (first_error failed (fst (worker (snd (running ! k)) s')))
             (emit (TaskEnd (fst (running ! k)) (\<not> isl (fst (worker (snd (running ! k)) s'))))
                (snd (worker (snd (running ! k)) s')))"
      unfolding r_def j_def .
  qed
  let ?p = "pool_loop env limit worker (zip [0..<length tasks] tasks) [] None s"
  from pool_loop_rule[where I = ?I and worker = worker and env = env and failed = None
         and queue = "zip [0..<length tasks] tasks" and running = "[]" and s = s,
         OF i start settle]
  obtain queue' where "?I queue' [] (fst ?p) (snd ?p)"
    by (elim exE conjE) simp
  then show ?thesis by (simp add: asyncPool_snd)
qed

lemma fetchFile_adds:
  "adds is_download_event s (snd (fetchFile env dataPath s))"
  by (auto simp: fetchFile_def Let_def is_download_event_def adds_refl intro!: adds_emit
           split: sum.splits)

lemma download_event_quiet:
  "is_download_event e \<Longrightarrow> \<not> is_task_event e"
  by (cases e; simp add: is_download_event_def is_task_event_def)

lemma download_worker_quiet:
  "\<forall>t s. adds (\<lambda>e. \<not> is_task_event e) s (snd (downloadFile env (fst t) (snd t) s))"
proof (intro allI)
  fix t :: "string \<times> string" and s
  show "adds (\<lambda>e. \<not> is_task_event e) s (snd (downloadFile env (fst t) (snd t) s))"
    by (rule adds_mono[OF downloadFile_adds]) (rule download_event_quiet)
qed

lemma setup_quiet:
  assumes "list_all is_setup_event tr"
  shows "list_all (\<lambda>e. \<not> is_task_event e) tr"
  using assms setup_event_kind(3) by (auto simp: list_all_iff)

lemma uploadStore_bounded:
  "bounded_in_flight 3 (trace (snd (uploadStore env store_id rootHash ip)))"
proof (cases rule: uploadStore_run[of env rootHash ip store_id])
  case (probe_failed e s1)
  let ?s0 = "initializeWallet env (new_PropagationServer env ip store_id)"
  have "adds (\<lambda>e. e = StoreProbe (store_url ?s0 (Some rootHash))) ?s0 s1"
    using checkStoreExists_adds[of ?s0 "Some rootHash" env] probe_failed(1) by simp
  from addsD[OF this]
  have "list_all (\<lambda>e. e = StoreProbe (store_url ?s0 (Some rootHash))) (trace s1)" by simp
  then have "list_all (\<lambda>e. \<not> is_task_event e) (trace s1)"
    by (auto simp: list_all_iff is_task_event_def)
  then show ?thesis
    using probe_failed(2) by (simp add: bounded_in_flight_only_quiet(1))
next
  case (replicated storeExists s1)
  have "list_all (\<lambda>e. \<not> is_task_event e)
          (trace (if storeExists then s1 else acquireCredentials env s1))"
    using setup_trace[OF replicated(1)] by (simp add: is_task_event_def)
  then show ?thesis
    using replicated(2) by (simp add: bounded_in_flight_only_quiet(1))
next
  case (start_failed storeExists s1 e s3)
  have "list_all (\<lambda>e. \<not> is_task_event e) (trace s3)"
    by (rule setup_quiet[OF setup_events[OF start_failed(1,2)]])
  then show ?thesis
    using start_failed(3) by (simp add: bounded_in_flight_only_quiet(1))
next
  case (upload_failed storeExists s1 s3 e s4)
  let ?pool = "asyncPool env upload_concurrencyLimit (upload_tasks env store_id rootHash)
                 (\<lambda>task. uploadFile env (fst task) (snd task))"
  have q3: "list_all (\<lambda>e. \<not> is_task_event e) (trace s3)"
    by (rule setup_quiet[OF setup_events[OF upload_failed(1,2)]])
  from asyncPool_bounded[where s = s3 and env = env and limit = upload_concurrencyLimit
         and tasks = "upload_tasks env store_id rootHash",
         OF upload_worker_quiet[of env] bounded_in_flight_only_quiet[OF q3]]
  have "bounded_in_flight upload_concurrencyLimit (trace (snd (?pool s3)))" by blast
  then show ?thesis
    using upload_failed(3,4) by (simp add: upload_concurrencyLimit_def)
next
  case (committed storeExists s1 s3 s4 r s5)
  let ?pool = "asyncPool env upload_concurrencyLimit (upload_tasks env store_id rootHash)
                 (\<lambda>task. uploadFile env (fst task) (snd task))"
  have q3: "list_all (\<lambda>e. \<not> is_task_event e) (trace s3)"
    by (rule setup_quiet[OF setup_events[OF committed(1,2)]])
  from asyncPool_bounded[where s = s3 and env = env and limit = upload_concurrencyLimit
         and tasks = "upload_tasks env store_id rootHash",
         OF upload_worker_quiet[of env] bounded_in_flight_only_quiet[OF q3]]
  have "bounded_in_flight upload_concurrencyLimit (trace (snd (?pool s3)))" by blast
  then have b4: "bounded_in_flight 3 (trace s4)"
    using committed(3) by (simp add: upload_concurrencyLimit_def)
  have "adds is_commit s4 (snd (commitUploadSession env s4))"
    by (rule commitUploadSession_adds)
  from addsD[OF this] committed(4)
  have tr5: "trace s5 = trace s4 @ new_events s4 s5"
    and "list_all is_commit (new_events s4 s5)" by simp_all
  then have "list_all (\<lambda>e. \<not> is_task_event e) (new_events s4 s5)"
    by (auto simp: list_all_iff is_commit_def is_task_event_def split: event.splits)
  from bounded_in_flight_quiet(1)[OF b4 this] show ?thesis
    using committed(5) by (simp add: tr5)
qed

lemma downloadStore_bounded:
  "bounded_in_flight 5 (trace (snd (downloadStore env store_id rootHash ip)))"
proof -
  let ?Q = "\<lambda>e. \<not> is_task_event e"
  let ?s0 = "initializeWallet env (new_PropagationServer env ip store_id)"
  let ?final = "snd (downloadStore env store_id rootHash ip)"
  obtain r1 s1 where c: "checkStoreExists env (Some rootHash) ?s0 = (r1, s1)"
    by (cases "checkStoreExists env (Some rootHash) ?s0")
  have "adds (\<lambda>e. e = StoreProbe (store_url ?s0 (Some rootHash))) ?s0 s1"
    using checkStoreExists_adds[of ?s0 "Some rootHash" env] c by simp
  then have a1: "adds ?Q ?s0 s1"
    by (rule adds_mono) (simp add: is_task_event_def)
  have q1: "list_all ?Q (trace s1)" using addsD[OF a1] by simp
  obtain r2 s2 where f: "fetchFile env (rootHash @ ''.dat'') s1 = (r2, s2)"
    by (cases "fetchFile env (rootHash @ ''.dat'') s1")
  have "adds is_download_event s1 s2"
    using fetchFile_adds[of s1 env "rootHash @ ''.dat''"] f by simp
  then have "adds ?Q s1 s2" by (rule adds_mono) (rule download_event_quiet)
  with a1 have "adds ?Q ?s0 s2" by (rule adds_trans)
  then have q2: "list_all ?Q (trace s2)" using addsD by fastforce
  let ?pool = "\<lambda>entries. asyncPool env download_concurrencyLimit
                 (map (\<lambda>(fileKey, sha256).
                         (hex_to_utf8 env fileKey, getFilePathFromSha256 env sha256 ''data''))
                    entries)
                 (\<lambda>task. downloadFile env (fst task) (snd task)) s2"
  have pool: "bounded_in_flight 5 (trace (snd (?pool entries)))" for entries
    using asyncPool_bounded[where s = s2 and env = env and limit = download_concurrencyLimit,
            OF download_worker_quiet[of env] bounded_in_flight_only_quiet[OF q2]]
    by (simp add: download_concurrencyLimit_def)
  have shape: "?final = s1 \<or> ?final = s2 \<or>
        (\<exists>entries. ?final = snd (?pool entries) \<or>
           (\<exists>p d. ?final = emit (WriteFile p d) (snd (?pool entries))) \<or>
           (\<exists>p d. ?final = emit (GenerateManifest store_id)
                               (emit (WriteFile p d) (snd (?pool entries)))))"
  proof (cases r1)
    case (Inl e)
    with c have "?final = s1" by (simp add: downloadStore_def)
    then show ?thesis by simp
  next
    case (Inr flags)
    obtain storeExists rootHashExists where fl: "flags = (storeExists, rootHashExists)"
      by (cases flags)
    show ?thesis
    proof (cases "storeExists \<and> rootHashExists")
      case False
      with c Inr fl have "?final = s1" by (auto simp: downloadStore_def)
      then show ?thesis by simp
    next
      case True
      show ?thesis
      proof (cases r2)
        case (Inl e)
        with c Inr fl True f have "?final = s2" by (simp add: downloadStore_def)
        then show ?thesis by simp
      next
        case fetched: (Inr content)
        show ?thesis
        proof (cases "json_files env content")
          case (Inl e)
          with c Inr fl True f fetched have "?final = s2" by (simp add: downloadStore_def)
          then show ?thesis by simp
        next
          case parsed: (Inr entries)
          let ?p = "path_join env [STORE_PATH env, store_id, rootHash @ ''.dat'']"
          obtain r3 s3 where p: "?pool entries = (r3, s3)" by (cases "?pool entries")
          have "?final = s3 \<or> ?final = emit (WriteFile ?p content) s3 \<or>
                ?final = emit (GenerateManifest store_id) (emit (WriteFile ?p content) s3)"
            using c Inr fl True f fetched parsed p
            by (simp add: downloadStore_def Let_def split: sum.splits)
          then have "?final = snd (?pool entries) \<or>
                ?final = emit (WriteFile ?p content) (snd (?pool entries)) \<or>
                ?final = emit (GenerateManifest store_id)
                           (emit (WriteFile ?p content) (snd (?pool entries)))"
            by (simp add: p)
          then show ?thesis by blast
        qed
      qed
    qed
  qed
  have ext: "bounded_in_flight 5 (trace (emit e s'))"
    if "bounded_in_flight 5 (trace s')" and "\<not> is_task_event e" for e s'
    using bounded_in_flight_quiet(1)[OF that(1), of "[e]"] that(2) by simp
  from shape show ?thesis
  proof (elim disjE exE)
    assume "?final = s1"
    then show ?thesis using q1 by (simp add: bounded_in_flight_only_quiet(1))
  next
    assume "?final = s2"
    then show ?thesis using q2 by (simp add: bounded_in_flight_only_quiet(1))
  next
    fix entries assume "?final = snd (?pool entries)"
    then show ?thesis using pool[of entries] by simp
  next
    fix entries p d assume "?final = emit (WriteFile p d) (snd (?pool entries))"
    then show ?thesis using ext[OF pool[of entries], of "WriteFile p d"]
      by (simp add: is_task_event_def)
  next
    fix entries p d
    assume "?final = emit (GenerateManifest store_id) (emit (WriteFile p d) (snd (?pool entries)))"
    then show ?thesis
      using ext[OF ext[OF pool[of entries], of "WriteFile p d"], of "GenerateManifest store_id"]
      by (simp add: is_task_event_def)
  qed
qed

lemmas download_run_simps =
  downloadStore_def checkStoreExists_def fetchFile_def downloadFile_def totalLength_def
  truthy_number_def parseInt_def isWhiteSpace_def isDigit_def digitsValue_def digitValue_def
  asyncPool_def pool_loop.simps remove_nth_def first_error_def download_concurrencyLimit_def
  truthy_def store_url_def fetch_url_def probe_headers_def Let_def

lemma busy_upload_run:
  "trace (snd (uploadStore busy_upload_env ''store1'' ''root1'' ''10.0.0.1'')) =
     [StoreProbe ''https://10.0.0.1:4159/store1?hasRootHash=root1'',
      SessionStart ''https://10.0.0.1:4159/upload/store1?roothash=root1'' None,
      TaskStart 0, TaskStart 1, TaskStart 2,
      NonceRequest ''https://10.0.0.1:4159/upload/store1/session-1/aa'',
      TaskEnd 0 True, TaskStart 3,
      NonceRequest ''https://10.0.0.1:4159/upload/store1/session-1/bb'',
      TaskEnd 1 True,
      NonceRequest ''https://10.0.0.1:4159/upload/store1/session-1/cc'',
      TaskEnd 2 True,
      NonceRequest ''https://10.0.0.1:4159/upload/store1/session-1/dd'',
      TaskEnd 3 True,
      Commit ''https://10.0.0.1:4159/commit/store1/session-1'' None]"
  by (simp add: busy_upload_env_def four_files_def upload_run_simps example_simps)

lemma busy_download_run:
  "take 9 (trace (snd (downloadStore busy_download_env ''store1'' ''root1'' ''10.0.0.1''))) =
     [StoreProbe ''https://10.0.0.1:4159/store1?hasRootHash=root1'',
      Fetch ''https://10.0.0.1:4159/fetch/store1/root1.dat'',
      BodyStream ''https://10.0.0.1:4159/fetch/store1/root1.dat'',
      TaskStart 0, TaskStart 1, TaskStart 2, TaskStart 3, TaskStart 4,
      MakeDir ''/store/store1/data/a'']"
  by (simp add: busy_download_env_def download_run_simps example_simps)

section \<open>The claims\<close>

text \<open>
  C5. Missing content-length is a protocol violation: when the GET response of
  \<open>fetchFile\<close> or of \<open>downloadFile\<close> has no \<open>content-length\<close> header, the call fails
  with the error \<open>Content-Length header is missing\<close>; its only actions are the ones up to
  the GET request, so the body is neither streamed nor written.
\<close>

theorem missing_content_length_fails:
  fixes env :: env and s :: state and dataPath label :: string and response :: get_response
  defines "url \<equiv> fetch_url s dataPath"
    and "dir \<equiv> path_dirname env (path_join env [STORE_PATH env, storeId (self s), dataPath])"
  assumes "resp_headers response ''content-length'' = None"
  shows "(createHttpsAgent env s = Inr () \<and>
          axios_get env (trace s @ [Fetch url]) url = Inr response \<longrightarrow>
            fetchFile env dataPath s =
              (Inl (Error ''Content-Length header is missing''), emit (Fetch url) s)) \<and>
         (mkdirSync env (trace s @ [MakeDir dir]) dir = Inr () \<and>
          createHttpsAgent env (emit (MakeDir dir) s) = Inr () \<and>
          axios_get env (trace s @ [MakeDir dir, Fetch url]) url = Inr response \<longrightarrow>
            downloadFile env label dataPath s =
              (Inl (Error ''Content-Length header is missing''),
               emit (Fetch url) (emit (MakeDir dir) s)))"
proof (intro conjI impI)
  have falsy: "\<not> truthy_number (totalLength response)"
    using assms(3) by (simp add: totalLength_absent truthy_number_def)
  {
    assume "createHttpsAgent env s = Inr () \<and>
            axios_get env (trace s @ [Fetch url]) url = Inr response"
    then show "fetchFile env dataPath s =
                 (Inl (Error ''Content-Length header is missing''), emit (Fetch url) s)"
      unfolding url_def using falsy by (simp add: fetchFile_falsy_length)
  next
    assume "mkdirSync env (trace s @ [MakeDir dir]) dir = Inr () \<and>
            createHttpsAgent env (emit (MakeDir dir) s) = Inr () \<and>
            axios_get env (trace s @ [MakeDir dir, Fetch url]) url = Inr response"
    then show "downloadFile env label dataPath s =
                 (Inl (Error ''Content-Length header is missing''),
                  emit (Fetch url) (emit (MakeDir dir) s))"
      unfolding url_def using falsy dir_def by (simp add: downloadFile_falsy_length)
  }
qed

theorem missing_content_length_fails_witness:
  "fetchFile no_length_env ''aa/bb'' (example_state no_length_env) =
     (Inl (Error ''Content-Length header is missing''),
      emit (Fetch ''https://10.0.0.1:4159/fetch/store1/aa/bb'') (example_state no_length_env)) \<and>
   downloadFile no_length_env ''label'' ''aa/bb'' (example_state no_length_env) =
     (Inl (Error ''Content-Length header is missing''),
      emit (Fetch ''https://10.0.0.1:4159/fetch/store1/aa/bb'')
        (emit (MakeDir ''/store/store1/aa/bb'') (example_state no_length_env)))"
  using missing_content_length_fails
          [of "\<lparr>resp_headers = Map.empty, resp_body = Inr ''bytes''\<rparr>" no_length_env
              "example_state no_length_env" "''aa/bb''" "''label''"]
  by (simp add: no_length_env_def example_env_def example_state_def initializeWallet_def
        new_PropagationServer_def createHttpsAgent_def emit_def fetch_url_def base_url_def port_def)

text \<open>
  C10. A zero-length file cannot be fetched: when the GET response of \<open>fetchFile\<close> or of
  \<open>downloadFile\<close> carries \<open>content-length: 0\<close>, the parsed length \<open>0\<close> is falsy like an
  absent header, and the call fails with the error \<open>Content-Length header is missing\<close>
  without streaming the body.
\<close>

theorem zero_content_length_fails:
  fixes env :: env and s :: state and dataPath label :: string and response :: get_response
  defines "url \<equiv> fetch_url s dataPath"
    and "dir \<equiv> path_dirname env (path_join env [STORE_PATH env, storeId (self s), dataPath])"
  assumes "resp_headers response ''content-length'' = Some ''0''"
  shows "(createHttpsAgent env s = Inr () \<and>
          axios_get env (trace s @ [Fetch url]) url = Inr response \<longrightarrow>
            fetchFile env dataPath s =
              (Inl (Error ''Content-Length header is missing''), emit (Fetch url) s)) \<and>
         (mkdirSync env (trace s @ [MakeDir dir]) dir = Inr () \<and>
          createHttpsAgent env (emit (MakeDir dir) s) = Inr () \<and>
          axios_get env (trace s @ [MakeDir dir, Fetch url]) url = Inr response \<longrightarrow>
            downloadFile env label dataPath s =
              (Inl (Error ''Content-Length header is missing''),
               emit (Fetch url) (emit (MakeDir dir) s)))"
proof (intro conjI impI)
  have falsy: "\<not> truthy_number (totalLength response)"
    using assms(3) by (simp add: totalLength_zero truthy_number_def)
  {
    assume "createHttpsAgent env s = Inr () \<and>
            axios_get env (trace s @ [Fetch url]) url = Inr response"
    then show "fetchFile env dataPath s =
                 (Inl (Error ''Content-Length header is missing''), emit (Fetch url) s)"
      unfolding url_def using falsy by (simp add: fetchFile_falsy_length)
  next
    assume "mkdirSync env (trace s @ [MakeDir dir]) dir = Inr () \<and>
            createHttpsAgent env (emit (MakeDir dir) s) = Inr () \<and>
            axios_get env (trace s @ [MakeDir dir, Fetch url]) url = Inr response"
    then show "downloadFile env label dataPath s =
                 (Inl (Error ''Content-Length header is missing''),
                  emit (Fetch url) (emit (MakeDir dir) s))"
      unfolding url_def using falsy dir_def by (simp add: downloadFile_falsy_length)
  }
qed

theorem zero_content_length_fails_witness:
  "fetchFile zero_length_env ''aa/bb'' (example_state zero_length_env) =
     (Inl (Error ''Content-Length header is missing''),
      emit (Fetch ''https://10.0.0.1:4159/fetch/store1/aa/bb'') (example_state zero_length_env)) \<and>
   downloadFile zero_length_env ''label'' ''aa/bb'' (example_state zero_length_env) =
     (Inl (Error ''Content-Length header is missing''),
      emit (Fetch ''https://10.0.0.1:4159/fetch/store1/aa/bb'')
        (emit (MakeDir ''/store/store1/aa/bb'') (example_state zero_length_env)))"
  using zero_content_length_fails
          [of "\<lparr>resp_headers = [''content-length'' \<mapsto> ''0''], resp_body = Inr ''''\<rparr>" zero_length_env
              "example_state zero_length_env" "''aa/bb''" "''label''"]
  by (simp add: zero_length_env_def example_env_def example_state_def initializeWallet_def
        new_PropagationServer_def createHttpsAgent_def emit_def fetch_url_def base_url_def port_def)

text \<open>
  C3. Idempotent skip on upload: when the nonce probe of a file answers with
  \<open>x-file-exists: true\<close>, \<open>uploadFile\<close> returns successfully and its only action is that
  nonce request: no signature is produced and no PUT request is sent.
\<close>

theorem uploadFile_skips_existing_file:
  fixes env :: env and s :: state and label dataPath :: string and response_headers :: headers
  defines "url \<equiv> upload_url s dataPath"
  assumes "createHttpsAgent env s = Inr ()"
    and "axios_head env (trace s @ [NonceRequest url]) url = Inr response_headers"
    and "response_headers ''x-file-exists'' = Some ''true''"
  shows "uploadFile env label dataPath s = (Inr (), emit (NonceRequest url) s) \<and>
         new_events s (snd (uploadFile env label dataPath s)) = [NonceRequest url]"
proof -
  have "getFileNonce env dataPath s =
          (Inr (response_headers ''x-nonce'', True), emit (NonceRequest url) s)"
    using assms(2,3,4) unfolding url_def by (simp add: getFileNonce_exists)
  then have "uploadFile env label dataPath s = (Inr (), emit (NonceRequest url) s)"
    by (simp add: uploadFile_def)
  then show ?thesis by simp
qed

theorem uploadFile_skips_existing_file_witness:
  "uploadFile existing_file_env ''a.txt'' ''data/aa'' (example_state existing_file_env) =
     (Inr (), emit (NonceRequest ''https://10.0.0.1:4159/upload/store1//data/aa'')
                (example_state existing_file_env)) \<and>
   new_events (example_state existing_file_env)
     (snd (uploadFile existing_file_env ''a.txt'' ''data/aa'' (example_state existing_file_env))) =
     [NonceRequest ''https://10.0.0.1:4159/upload/store1//data/aa'']"
proof -
  let ?s = "example_state existing_file_env"
  let ?url = "upload_url ?s ''data/aa''"
  have agent: "createHttpsAgent existing_file_env ?s = Inr ()"
    by (simp add: existing_file_env_def example_simps)
  have head: "axios_head existing_file_env (trace ?s @ [NonceRequest ?url]) ?url =
                Inr [''x-file-exists'' \<mapsto> ''true'']"
    by (simp add: existing_file_env_def example_env_def)
  have "[''x-file-exists'' \<mapsto> ''true''] ''x-file-exists'' = Some ''true''"
    by simp
  from uploadFile_skips_existing_file[OF agent head this, of "''a.txt''"] show ?thesis
    by (simp add: existing_file_env_def upload_url_def new_events_def example_simps)
qed

text \<open>
  C2. Skip-if-already-replicated: when the store probe of \<open>uploadStore\<close> reports
  \<open>rootHashExists = true\<close>, the operation returns successfully; its trace is the probe,
  followed by the credential prompt when the store is unknown, so no session is
  started, no nonce is requested, no file body is sent and nothing is committed, and
  the session id stays empty.
\<close>

theorem uploadStore_skips_replicated_root:
  fixes env :: env and store_id rootHash ip :: string
  defines "s0 \<equiv> initializeWallet env (new_PropagationServer env ip store_id)"
  assumes "checkStoreExists env (Some rootHash) s0 = (Inr (storeExists, True), s1)"
  shows "fst (uploadStore env store_id rootHash ip) = Inr () \<and>
         trace (snd (uploadStore env store_id rootHash ip)) =
           (if storeExists then [StoreProbe (store_url s0 (Some rootHash))]
            else [StoreProbe (store_url s0 (Some rootHash)), CredentialPrompt ip]) \<and>
         list_all (\<lambda>e. \<not> is_session_event e) (trace (snd (uploadStore env store_id rootHash ip))) \<and>
         sessionId (self (snd (uploadStore env store_id rootHash ip))) = ''''"
proof -
  have s1: "s1 = emit (StoreProbe (store_url s0 (Some rootHash))) s0"
    using assms(2) by (rule checkStoreExists_Inr)
  have r: "uploadStore env store_id rootHash ip =
             (Inr (), if storeExists then s1 else acquireCredentials env s1)"
    using assms(2) unfolding s0_def by (rule uploadStore_rootHashExists)
  show ?thesis
    unfolding r s1
    by (simp add: s0_def acquireCredentials_trace acquireCredentials_sessionId is_session_event_def)
qed

theorem uploadStore_skips_replicated_root_witness:
  "fst (uploadStore replicated_env ''store1'' ''root1'' ''10.0.0.1'') = Inr () \<and>
   trace (snd (uploadStore replicated_env ''store1'' ''root1'' ''10.0.0.1'')) =
     [StoreProbe ''https://10.0.0.1:4159/store1?hasRootHash=root1'']"
  using uploadStore_skips_replicated_root
          [of replicated_env "''root1''" "''10.0.0.1''" "''store1''" True
              "emit (StoreProbe ''https://10.0.0.1:4159/store1?hasRootHash=root1'')
                 (initializeWallet replicated_env (new_PropagationServer replicated_env ''10.0.0.1'' ''store1''))"]
  by (simp add: replicated_env_def checkStoreExists_def store_url_def truthy_def probe_headers_def
        Let_def example_simps)

text \<open>
  C7, as stated, does not hold: the claim says that a run whose probe reports
  \<open>rootHashExists = true\<close> never invokes the credential prompt, even for an unknown
  store. In \<open>uploadStore\<close> the prompt (lines 347 to 355) comes before the
  \<open>rootHashExists\<close> check (lines 357 to 364). Here the peer answers
  \<open>x-store-exists: false\<close> and \<open>x-has-root-hash: true\<close>, and the prompt is invoked.
\<close>

theorem uploadStore_prompt_counterexample:
  "fst (checkStoreExists unknown_store_env (Some ''root1'')
          (initializeWallet unknown_store_env
             (new_PropagationServer unknown_store_env ''10.0.0.1'' ''store1''))) =
     Inr (False, True) \<and>
   fst (uploadStore unknown_store_env ''store1'' ''root1'' ''10.0.0.1'') = Inr () \<and>
   trace (snd (uploadStore unknown_store_env ''store1'' ''root1'' ''10.0.0.1'')) =
     [StoreProbe ''https://10.0.0.1:4159/store1?hasRootHash=root1'',
      CredentialPrompt ''10.0.0.1'']"
  by (simp add: unknown_store_env_def uploadStore_def checkStoreExists_def store_url_def
        truthy_def probe_headers_def acquireCredentials_def Let_def example_simps)

text \<open>
  C7, amended. The credential prompt precedes the short-circuit: for every run where
  the probe reports \<open>rootHashExists = true\<close>, \<open>uploadStore\<close> terminates successfully
  without any action of an upload session, and it invokes the credential prompt once
  when \<open>storeExists\<close> is false and not at all when \<open>storeExists\<close> is true.
\<close>

theorem uploadStore_prompts_before_short_circuit:
  fixes env :: env and store_id rootHash ip :: string
  defines "s0 \<equiv> initializeWallet env (new_PropagationServer env ip store_id)"
  assumes "checkStoreExists env (Some rootHash) s0 = (Inr (storeExists, True), s1)"
  shows "fst (uploadStore env store_id rootHash ip) = Inr () \<and>
         filter is_prompt (trace (snd (uploadStore env store_id rootHash ip))) =
           (if storeExists then [] else [CredentialPrompt ip]) \<and>
         filter is_session_event (trace (snd (uploadStore env store_id rootHash ip))) = []"
proof -
  have s1: "s1 = emit (StoreProbe (store_url s0 (Some rootHash))) s0"
    using assms(2) by (rule checkStoreExists_Inr)
  have r: "uploadStore env store_id rootHash ip =
             (Inr (), if storeExists then s1 else acquireCredentials env s1)"
    using assms(2) unfolding s0_def by (rule uploadStore_rootHashExists)
  show ?thesis
    unfolding r s1
    by (simp add: s0_def acquireCredentials_trace is_session_event_def is_prompt_def)
qed

theorem uploadStore_prompts_before_short_circuit_witness:
  "fst (uploadStore unknown_store_env2 ''store1'' ''root1'' ''10.0.0.1'') = Inr () \<and>
   filter is_prompt (trace (snd (uploadStore unknown_store_env2 ''store1'' ''root1'' ''10.0.0.1''))) =
     [CredentialPrompt ''10.0.0.1''] \<and>
   filter is_session_event
     (trace (snd (uploadStore unknown_store_env2 ''store1'' ''root1'' ''10.0.0.1''))) = []"
proof -
  let ?s0 = "initializeWallet unknown_store_env2
               (new_PropagationServer unknown_store_env2 ''10.0.0.1'' ''store1'')"
  have probe: "checkStoreExists unknown_store_env2 (Some ''root1'') ?s0 =
                 (Inr (False, True), emit (StoreProbe (store_url ?s0 (Some ''root1''))) ?s0)"
    by (simp add: unknown_store_env2_def checkStoreExists_def probe_headers_def Let_def
          example_env_def createHttpsAgent_def)
  from uploadStore_prompts_before_short_circuit[OF probe] show ?thesis by simp
qed

text \<open>
  C6. Download precondition: when the probe of \<open>downloadStore\<close> reports
  \<open>storeExists = false\<close> or \<open>rootHashExists = false\<close>, the operation fails with
  \<open>Store ... does not exist.\<close> and its only action is the probe; and whenever a run of
  \<open>downloadStore\<close> issues a fetch request, the probe has reported both as true.
\<close>

theorem downloadStore_requires_store_and_root:
  fixes env :: env and store_id rootHash ip :: string
  defines "s0 \<equiv> initializeWallet env (new_PropagationServer env ip store_id)"
  shows "(\<forall>storeExists rootHashExists s1.
            checkStoreExists env (Some rootHash) s0 = (Inr (storeExists, rootHashExists), s1) \<and>
            (\<not> storeExists \<or> \<not> rootHashExists) \<longrightarrow>
            downloadStore env store_id rootHash ip =
              (Inl (Error (''Store '' @ store_id @ '' does not exist.'')), s1) \<and>
            trace s1 = [StoreProbe (store_url s0 (Some rootHash))]) \<and>
         ((\<exists>e \<in> set (trace (snd (downloadStore env store_id rootHash ip))). is_fetch e) \<longrightarrow>
            fst (checkStoreExists env (Some rootHash) s0) = Inr (True, True))"
proof (intro conjI allI impI)
  fix storeExists rootHashExists s1
  assume a: "checkStoreExists env (Some rootHash) s0 = (Inr (storeExists, rootHashExists), s1) \<and>
             (\<not> storeExists \<or> \<not> rootHashExists)"
  then show "downloadStore env store_id rootHash ip =
               (Inl (Error (''Store '' @ store_id @ '' does not exist.'')), s1)"
    unfolding s0_def by (auto simp: downloadStore_def Let_def)
  from a have "s1 = emit (StoreProbe (store_url s0 (Some rootHash))) s0"
    by (auto dest: checkStoreExists_Inr)
  then show "trace s1 = [StoreProbe (store_url s0 (Some rootHash))]"
    by (simp add: s0_def)
next
  assume "\<exists>e \<in> set (trace (snd (downloadStore env store_id rootHash ip))). is_fetch e"
  then show "fst (checkStoreExists env (Some rootHash) s0) = Inr (True, True)"
    unfolding s0_def by (rule downloadStore_no_fetch_without_probe)
qed

theorem downloadStore_requires_store_and_root_witness:
  "downloadStore absent_root_env ''store1'' ''root1'' ''10.0.0.1'' =
     (Inl (Error ''Store store1 does not exist.''),
      emit (StoreProbe ''https://10.0.0.1:4159/store1?hasRootHash=root1'')
        (example_state absent_root_env)) \<and>
   trace (snd (downloadStore unreachable_fetch_env ''store1'' ''root1'' ''10.0.0.1'')) =
     [StoreProbe ''https://10.0.0.1:4159/store1?hasRootHash=root1'',
      Fetch ''https://10.0.0.1:4159/fetch/store1/root1.dat''] \<and>
   fst (checkStoreExists unreachable_fetch_env (Some ''root1'')
          (example_state unreachable_fetch_env)) = Inr (True, True)"
proof -
  let ?a = absent_root_env and ?u = unreachable_fetch_env
  let ?url = "''https://10.0.0.1:4159/store1?hasRootHash=root1''"
  have url: "store_url (example_state env) (Some ''root1'') = ?url" for env
    by (simp add: store_url_def truthy_def example_simps)
  have probe: "checkStoreExists ?a (Some ''root1'') (example_state ?a) =
                 (Inr (True, False), emit (StoreProbe ?url) (example_state ?a))"
    by (simp add: absent_root_env_def checkStoreExists_def probe_headers_def Let_def url
          example_env_def createHttpsAgent_def)
  have tr: "trace (snd (downloadStore ?u ''store1'' ''root1'' ''10.0.0.1'')) =
              [StoreProbe ?url, Fetch ''https://10.0.0.1:4159/fetch/store1/root1.dat'']"
    by (simp add: unreachable_fetch_env_def downloadStore_def checkStoreExists_def fetchFile_def
          fetch_url_def store_url_def truthy_def probe_headers_def Let_def example_simps)
  then have fetched: "\<exists>e \<in> set (trace (snd (downloadStore ?u ''store1'' ''root1'' ''10.0.0.1''))).
                        is_fetch e"
    by (simp add: is_fetch_def)
  from downloadStore_requires_store_and_root[of ?a "''root1''" "''10.0.0.1''" "''store1''"] probe
  have "downloadStore ?a ''store1'' ''root1'' ''10.0.0.1'' =
          (Inl (Error (''Store '' @ ''store1'' @ '' does not exist.'')),
           emit (StoreProbe ?url) (example_state ?a))"
    unfolding example_state_def by blast
  moreover
  from downloadStore_requires_store_and_root[of ?u "''root1''" "''10.0.0.1''" "''store1''"] fetched
  have "fst (checkStoreExists ?u (Some ''root1'') (example_state ?u)) = Inr (True, True)"
    unfolding example_state_def by blast
  ultimately show ?thesis using tr by simp
qed






text \<open>
  C9. The session id is assigned once. It is empty after construction; the wallet
  initialisation, the probe and the credential prompt leave it as it is;
  \<open>startUploadSession\<close> sets it to the id of the session-start response when it
  succeeds and leaves it unchanged when it fails; the nonce request, the file upload,
  the scheduler running the uploads and the commit leave it as it is. In a run of
  \<open>uploadStore\<close> the session-start request is sent at most once, the session id is
  still empty at the end when it was never sent, and every nonce request, file PUT and
  commit of the run carries in its url the session id that the object holds at the end.
\<close>

theorem sessionId_single_assignment:
  fixes env :: env and s :: state and store_id rootHash ip filename label dataPath :: string
    and probeHash :: "string option" and tasks :: "(string \<times> string) list"
  defines "final \<equiv> snd (uploadStore env store_id rootHash ip)"
    and "start \<equiv> startUploadSession env rootHash s"
  shows "sessionId (self (new_PropagationServer env ip store_id)) = '''' \<and>
         sessionId (self (initializeWallet env s)) = sessionId (self s) \<and>
         sessionId (self (snd (checkStoreExists env probeHash s))) = sessionId (self s) \<and>
         sessionId (self (acquireCredentials env s)) = sessionId (self s) \<and>
         (\<forall>sid. fst start = Inr () \<and>
                axios_post env (trace s @ [SessionStart (session_url s rootHash) (basic_auth s)])
                  (session_url s rootHash) (basic_auth s) = Inr sid \<longrightarrow>
                sessionId (self (snd start)) = sid) \<and>
         (isl (fst start) \<longrightarrow> sessionId (self (snd start)) = sessionId (self s)) \<and>
         sessionId (self (snd (getFileNonce env filename s))) = sessionId (self s) \<and>
         sessionId (self (snd (uploadFile env label dataPath s))) = sessionId (self s) \<and>
         sessionId (self (snd (asyncPool env limit tasks
                                 (\<lambda>task. uploadFile env (fst task) (snd task)) s))) =
           sessionId (self s) \<and>
         sessionId (self (snd (commitUploadSession env s))) = sessionId (self s) \<and>
         list_all (uses_session final) (trace final) \<and>
         length (filter is_session_start (trace final)) \<le> 1 \<and>
         (filter is_session_start (trace final) = [] \<longrightarrow> sessionId (self final) = '''')"
proof -
  have 1: "sessionId (self (new_PropagationServer env ip store_id)) = ''''"
    by (simp add: new_PropagationServer_def)
  have 2: "sessionId (self (initializeWallet env s)) = sessionId (self s)"
    by (simp add: initializeWallet_def)
  have 3: "sessionId (self (snd (checkStoreExists env probeHash s))) = sessionId (self s)"
    using addsD[OF checkStoreExists_adds[of s probeHash env]] by simp
  have 4: "sessionId (self (acquireCredentials env s)) = sessionId (self s)"
    by (rule acquireCredentials_sessionId)
  obtain r s' where st: "startUploadSession env rootHash s = (r, s')"
    by (cases "startUploadSession env rootHash s")
  have 5: "\<forall>sid. fst start = Inr () \<and>
                axios_post env (trace s @ [SessionStart (session_url s rootHash) (basic_auth s)])
                  (session_url s rootHash) (basic_auth s) = Inr sid \<longrightarrow>
                sessionId (self (snd start)) = sid"
    using startUploadSession_cases[OF st] by (auto simp: start_def st)
  have 6: "isl (fst start) \<longrightarrow> sessionId (self (snd start)) = sessionId (self s)"
    using startUploadSession_cases[OF st] by (auto simp: start_def st)
  have 7: "sessionId (self (snd (getFileNonce env filename s))) = sessionId (self s)"
    using addsD[OF getFileNonce_adds[of s filename env]] by simp
  have 8: "sessionId (self (snd (uploadFile env label dataPath s))) = sessionId (self s)"
    using addsD[OF uploadFile_adds[of s env label dataPath]] by simp
  have 9: "sessionId (self (snd (asyncPool env limit tasks
                                 (\<lambda>task. uploadFile env (fst task) (snd task)) s))) =
           sessionId (self s)"
    using addsD[OF upload_pool_events[of s env limit tasks]] by simp
  have 10: "sessionId (self (snd (commitUploadSession env s))) = sessionId (self s)"
    using addsD[OF commitUploadSession_adds[of s env]] by simp
  from uploadStore_session_shape[of env store_id rootHash ip]
  have 11: "list_all (uses_session final) (trace final) \<and>
         length (filter is_session_start (trace final)) \<le> 1 \<and>
         (filter is_session_start (trace final) = [] \<longrightarrow> sessionId (self final) = '''')"
    by (simp add: final_def)
  from 1 2 3 4 5 6 7 8 9 10 11 show ?thesis by blast
qed

theorem sessionId_single_assignment_witness:
  "sessionId (self (example_state upload_env)) = '''' \<and>
   sessionId (self (snd (startUploadSession upload_env ''root1'' (example_state upload_env)))) =
     ''session-1'' \<and>
   sessionId (self (snd (uploadStore upload_env ''store1'' ''root1'' ''10.0.0.1''))) = ''session-1'' \<and>
   list_all (uses_session (snd (uploadStore upload_env ''store1'' ''root1'' ''10.0.0.1'')))
     (trace (snd (uploadStore upload_env ''store1'' ''root1'' ''10.0.0.1''))) \<and>
   sessionId (self (snd (uploadStore replicated_env ''store1'' ''root1'' ''10.0.0.1''))) = ''''"
proof -
  let ?s = "example_state upload_env"
  note inst = sessionId_single_assignment[where env = upload_env and s = ?s
               and store_id = "''store1''" and rootHash = "''root1''" and ip = "''10.0.0.1''"]
  have init: "sessionId (self ?s) = ''''"
    using inst by (simp add: example_state_def)
  have started: "fst (startUploadSession upload_env ''root1'' ?s) = Inr ()"
    by (simp add: upload_env_def startUploadSession_def Let_def example_simps)
  have post: "axios_post upload_env
                (trace ?s @ [SessionStart (session_url ?s ''root1'') (basic_auth ?s)])
                (session_url ?s ''root1'') (basic_auth ?s) = Inr ''session-1''"
    by (simp add: upload_env_def example_env_def)
  from inst started post
  have sid: "sessionId (self (snd (startUploadSession upload_env ''root1'' ?s))) = ''session-1''"
    by blast
  from inst have "list_all (uses_session (snd (uploadStore upload_env ''store1'' ''root1'' ''10.0.0.1'')))
     (trace (snd (uploadStore upload_env ''store1'' ''root1'' ''10.0.0.1'')))"
    by blast
  moreover have "sessionId (self (snd (uploadStore upload_env ''store1'' ''root1'' ''10.0.0.1''))) =
                   ''session-1''"
    by (simp add: upload_env_run)
  moreover have "filter is_session_start
                   (trace (snd (uploadStore replicated_env ''store1'' ''root1'' ''10.0.0.1''))) = []"
    by (simp add: replicated_env_def uploadStore_def checkStoreExists_def store_url_def truthy_def
          probe_headers_def Let_def is_session_start_def example_simps)
  with sessionId_single_assignment[where env = replicated_env and store_id = "''store1''"
         and rootHash = "''root1''" and ip = "''10.0.0.1''"]
  have "sessionId (self (snd (uploadStore replicated_env ''store1'' ''root1'' ''10.0.0.1''))) = ''''"
    by blast
  ultimately show ?thesis using init sid by blast
qed

text \<open>
  C8. Concurrency bound: at every point of a run of \<open>uploadStore\<close> at most 3 file
  transfers are in flight (started by the scheduler and not yet settled), and at every
  point of a run of \<open>downloadStore\<close> at most 5, whatever the number of files and the
  order in which the runtime settles them. The limits 3 and 5 are the constants of
  lines 379 and 626; the scheduler is the one modelled from the spec.
\<close>

theorem transfers_in_flight_bounded:
  "(\<forall>k. in_flight (take k (trace (snd (uploadStore env store_id rootHash ip)))) \<le> 3) \<and>
   (\<forall>k. in_flight (take k (trace (snd (downloadStore env store_id rootHash ip)))) \<le> 5)"
  using uploadStore_bounded[of env store_id rootHash ip]
    downloadStore_bounded[of env store_id rootHash ip]
  by (simp add: bounded_in_flight_def)

theorem transfers_in_flight_bounded_witness:
  "in_flight (take 5 (trace (snd (uploadStore busy_upload_env ''store1'' ''root1'' ''10.0.0.1'')))) = 3 \<and>
   in_flight (take 8 (trace (snd (uploadStore busy_upload_env ''store1'' ''root1'' ''10.0.0.1'')))) \<le> 3 \<and>
   in_flight (take 8 (trace (snd (downloadStore busy_download_env ''store1'' ''root1'' ''10.0.0.1'')))) = 5 \<and>
   in_flight (take 13 (trace (snd (downloadStore busy_download_env ''store1'' ''root1'' ''10.0.0.1'')))) \<le> 5"
proof -
  note b = transfers_in_flight_bounded[of busy_upload_env "''store1''" "''root1''" "''10.0.0.1''"]
    transfers_in_flight_bounded[of busy_download_env "''store1''" "''root1''" "''10.0.0.1''"]
  have "in_flight (take 5 (trace (snd (uploadStore busy_upload_env ''store1'' ''root1'' ''10.0.0.1'')))) = 3"
    by (simp add: busy_upload_run in_flight_def)
  moreover have "take 8 (trace (snd (downloadStore busy_download_env ''store1'' ''root1'' ''10.0.0.1''))) =
                 take 8 (take 9 (trace (snd (downloadStore busy_download_env ''store1'' ''root1'' ''10.0.0.1''))))"
    by simp
  then have "in_flight (take 8 (trace (snd (downloadStore busy_download_env ''store1'' ''root1'' ''10.0.0.1'')))) = 5"
    by (simp only: busy_download_run) (simp add: in_flight_def)
  ultimately show ?thesis using b by blast
qed

end
